theory Spec2Isabelle
  imports Complex_Main "HOL-Library.AList" "HOL-Library.Char_ord" "HOL-Library.List_Lexorder"
    "HOL-Library.Sublist"
begin

section \<open>Reconciliation engine of nba-milestones: shared vocabulary\<close>

text \<open>
  \<^verbatim>\<open>METRICS\<close> of \<^verbatim>\<open>coverage_scan_single.py\<close>: the provider's column name paired with
  the local store's column name, in the order of the source.
\<close>

definition METRICS :: "(string \<times> string) list" where
  "METRICS = [(''PTS'', ''points''), (''REB'', ''rebounds''), (''AST'', ''assists''),
              (''STL'', ''steals''), (''BLK'', ''blocks'')]"

definition REGULAR_SEASON :: string where
  "REGULAR_SEASON = ''Regular Season''"

section \<open>Override Store: table \<^verbatim>\<open>season_totals_override\<close>\<close>

text \<open>
  One row of the table holds the five metric columns; the primary key is
  (player_id, season, season_type). The table is an association list from keys to rows:
  the order is the insertion order, and no key occurs twice (the primary key).
\<close>

record override_row =
  points :: int
  rebounds :: int
  assists :: int
  steals :: int
  blocks :: int

type_synonym override_key = "string \<times> string \<times> string"

type_synonym override_table = "(override_key \<times> override_row) list"

text \<open>\<^verbatim>\<open>deltas.get(name, 0)\<close> on a Python dict.\<close>

definition get0 :: "(string \<rightharpoonup> int) \<Rightarrow> string \<Rightarrow> int" where
  "get0 d k = (case d k of None \<Rightarrow> 0 | Some v \<Rightarrow> v)"

text \<open>The parameter tuple of the INSERT: every column is read from the dict with default 0.\<close>

definition row_of_deltas :: "(string \<rightharpoonup> int) \<Rightarrow> override_row" where
  "row_of_deltas deltas =
     \<lparr> points = get0 deltas ''points'',
       rebounds = get0 deltas ''rebounds'',
       assists = get0 deltas ''assists'',
       steals = get0 deltas ''steals'',
       blocks = get0 deltas ''blocks'' \<rparr>"

text \<open>
  \<^verbatim>\<open>upsert_override\<close> (identical in \<^verbatim>\<open>poc_create_season_overrides.py\<close> and
  \<^verbatim>\<open>batch_overrides_from_discrepancies.py\<close>):
  INSERT ... ON CONFLICT(player_id, season, season_type) DO UPDATE SET all five columns
  to the excluded (new) values. \<^const>\<open>AList.update\<close> replaces the row of an existing
  key in place and appends a new key at the end.
\<close>

definition upsert_override ::
  "override_table \<Rightarrow> string \<Rightarrow> string \<Rightarrow> (string \<rightharpoonup> int) \<Rightarrow> override_table" where
  "upsert_override conn player_id season deltas =
     AList.update (player_id, season, REGULAR_SEASON) (row_of_deltas deltas) conn"

text \<open>What a reader of the table observes for one key.\<close>

definition lookup_override :: "override_table \<Rightarrow> override_key \<Rightarrow> override_row option" where
  "lookup_override conn k = map_of conn k"

section \<open>Resilient Request Executor\<close>

text \<open>
  The constants of \<^verbatim>\<open>coverage_scan_single.py\<close> and \<^verbatim>\<open>validate_alltime_leaders.py\<close>
  (the same values in both). Durations are seconds, modelled as exact reals: the binary
  rounding of the float literal 0.8 is not part of the model.
\<close>

definition SLEEP_SECONDS :: real where
  "SLEEP_SECONDS = 1"

definition MAX_ATTEMPTS :: nat where
  "MAX_ATTEMPTS = 5"

definition BASE_DELAY :: real where
  "BASE_DELAY = 8 / 10"

definition MAX_DELAY :: real where
  "MAX_DELAY = 8"

text \<open>
  \<^verbatim>\<open>str.lower()\<close> on the ASCII letters; every other character is left as it is
  (the markers below are ASCII).
\<close>

definition lower_char :: "char \<Rightarrow> char" where
  "lower_char c =
     (case map_of (zip ''ABCDEFGHIJKLMNOPQRSTUVWXYZ'' ''abcdefghijklmnopqrstuvwxyz'') c of
        None \<Rightarrow> c
      | Some l \<Rightarrow> l)"

definition lower :: "string \<Rightarrow> string" where
  "lower s = map lower_char s"

text \<open>Python's \<^verbatim>\<open>m in msg\<close> on strings: \<open>m\<close> occurs in \<open>msg\<close> as a contiguous substring.\<close>

fun py_in :: "string \<Rightarrow> string \<Rightarrow> bool" where
  "py_in m [] = (m = [])"
| "py_in m (c # cs) = (prefix m (c # cs) \<or> py_in m cs)"

definition transient_markers :: "string list" where
  "transient_markers =
     [''429'', ''too many requests'', ''timeout'', ''timed out'', ''connection reset'',
      ''temporary'', ''service unavailable'', ''503'', ''502'', ''bad gateway'']"

text \<open>
  \<^verbatim>\<open>_should_retry_error\<close>. An exception is represented by its textual description
  \<^verbatim>\<open>str(err)\<close>, the only thing the classifier reads.
\<close>

definition should_retry_error :: "string \<Rightarrow> bool" where
  "should_retry_error err = list_ex (\<lambda>m. py_in m (lower err)) transient_markers"

text \<open>
  What one call of \<^verbatim>\<open>callable_fn()\<close> does: it returns a value or raises. The operation
  is remote and may answer differently each time, so it is a function of the attempt
  number in which it is called.
\<close>

datatype 'a outcome = Returned 'a | Raised string

text \<open>
  The random source. \<^verbatim>\<open>random.random()\<close> returns \<open>k / 2^53\<close> for a 53-bit integer
  \<open>k\<close>, a number in [0, 1); \<^verbatim>\<open>random.uniform(a, b)\<close> is
  \<^verbatim>\<open>a + (b - a) * self.random()\<close>. The draw is a function of the 53 random bits, and
  the bits drawn in attempt \<open>a\<close> are \<open>random_bits a\<close>. The numbers are exact reals,
  as the durations are.
\<close>

definition random_random :: "nat \<Rightarrow> real" where
  "random_random bits = real (bits mod 2 ^ 53) / 2 ^ 53"

definition random_uniform :: "real \<Rightarrow> real \<Rightarrow> nat \<Rightarrow> real" where
  "random_uniform a b bits = a + (b - a) * random_random bits"

text \<open>The calls of \<^verbatim>\<open>time.sleep\<close>: the pacing sleep before an attempt, and the backoff
  sleep of \<open>delay + jitter\<close> seconds after a failed one.\<close>

datatype sleep = Pacing real | Backoff real real

record 'a executed =
  result :: "string + 'a"
  attempts_made :: nat
  sleeps :: "sleep list"

text \<open>
  The body of \<^verbatim>\<open>for attempt in range(1, max_attempts + 1)\<close>, as recursion over the
  attempt numbers still to run. \<^verbatim>\<open>break\<close> leaves the loop for \<^verbatim>\<open>raise last_err\<close>, which
  is the error just caught. When the range is empty, \<^verbatim>\<open>last_err\<close> is still \<^verbatim>\<open>None\<close> and
  \<^verbatim>\<open>raise None\<close> is a TypeError.
\<close>

definition raise_None :: string where
  "raise_None = ''exceptions must derive from BaseException''"

fun attempt_loop ::
  "nat \<Rightarrow> real \<Rightarrow> real \<Rightarrow> (nat \<Rightarrow> 'a outcome) \<Rightarrow> (nat \<Rightarrow> nat) \<Rightarrow>
   nat list \<Rightarrow> string option \<Rightarrow> nat \<Rightarrow> sleep list \<Rightarrow> 'a executed" where
  "attempt_loop max_attempts base_delay max_delay callable_fn random_bits [] last_err n slept =
     \<lparr> result = Inl (case last_err of None \<Rightarrow> raise_None | Some e \<Rightarrow> e),
       attempts_made = n, sleeps = slept \<rparr>"
| "attempt_loop max_attempts base_delay max_delay callable_fn random_bits (attempt # rest) last_err n slept =
     (case callable_fn attempt of
        Returned v \<Rightarrow>
          \<lparr> result = Inr v, attempts_made = Suc n, sleeps = slept @ [Pacing SLEEP_SECONDS] \<rparr>
      | Raised e \<Rightarrow>
          if attempt \<ge> max_attempts \<or> \<not> should_retry_error e
          then \<lparr> result = Inl e, attempts_made = Suc n, sleeps = slept @ [Pacing SLEEP_SECONDS] \<rparr>
          else
            let delay = min max_delay (base_delay * 2 ^ (attempt - 1));
                jitter = delay * random_uniform (2 / 10) (5 / 10) (random_bits attempt)
            in attempt_loop max_attempts base_delay max_delay callable_fn random_bits rest (Some e)
                 (Suc n) (slept @ [Pacing SLEEP_SECONDS, Backoff delay jitter]))"

text \<open>\<^verbatim>\<open>request_with_retries\<close> of \<^verbatim>\<open>validate_alltime_leaders.py\<close>, with its keyword
  arguments.\<close>

definition request_with_retries_kw ::
  "nat \<Rightarrow> real \<Rightarrow> real \<Rightarrow> (nat \<Rightarrow> 'a outcome) \<Rightarrow> (nat \<Rightarrow> nat) \<Rightarrow> 'a executed" where
  "request_with_retries_kw max_attempts base_delay max_delay callable_fn random_bits =
     attempt_loop max_attempts base_delay max_delay callable_fn random_bits
       [1..<max_attempts + 1] None 0 []"

text \<open>\<^verbatim>\<open>request_with_retries\<close> of \<^verbatim>\<open>coverage_scan_single.py\<close>; the other file's version
  called with its defaults is the same function.\<close>

definition request_with_retries :: "(nat \<Rightarrow> 'a outcome) \<Rightarrow> (nat \<Rightarrow> nat) \<Rightarrow> 'a executed" where
  "request_with_retries callable_fn random_bits =
     request_with_retries_kw MAX_ATTEMPTS BASE_DELAY MAX_DELAY callable_fn random_bits"

text \<open>The backoff sleeps of a run, as pairs (delay, jitter), in order.\<close>

fun backoffs :: "sleep list \<Rightarrow> (real \<times> real) list" where
  "backoffs [] = []"
| "backoffs (Pacing t # xs) = backoffs xs"
| "backoffs (Backoff d j # xs) = (d, j) # backoffs xs"

text \<open>The delay formula in the words of the specification: min(8, 0.8 * 2^(attempt-1)).\<close>

definition spec_backoff_delay :: "nat \<Rightarrow> real" where
  "spec_backoff_delay attempt = min 8 (8 / 10 * 2 ^ (attempt - 1))"

section \<open>Tabular data\<close>

text \<open>
  A cell of a pandas frame: \<open>Num n\<close> is the integer number \<open>n\<close>, \<open>Text s\<close> the text
  \<open>s\<close> (whatever it spells, a number or not), \<open>NaN\<close> the float not-a-number and
  \<open>Null\<close> Python's \<^verbatim>\<open>None\<close>. The type has no number with a fractional part.
\<close>

datatype cell = Num int | Text string | NaN | Null

text \<open>
  What \<^verbatim>\<open>pd.to_numeric(x, errors="coerce")\<close> makes of a text: a finite number, an
  infinity (pandas reads \<^verbatim>\<open>inf\<close> and the like as one), or NaN for a text that it does not
  read as a number. The parser is pandas' own, not code of this repository: it is the
  parameter \<open>to_numeric\<close> of the functions below. Numbers are exact reals, not floats.
\<close>

datatype reading = Value real | Infinite | Not_a_number

text \<open>\<^verbatim>\<open>pd.to_numeric(x, errors="coerce")\<close> on one cell.\<close>

fun to_numeric_cell :: "(string \<Rightarrow> reading) \<Rightarrow> cell \<Rightarrow> reading" where
  "to_numeric_cell to_numeric (Num n) = Value (of_int n)"
| "to_numeric_cell to_numeric (Text s) = to_numeric s"
| "to_numeric_cell to_numeric NaN = Not_a_number"
| "to_numeric_cell to_numeric Null = Not_a_number"

text \<open>\<^verbatim>\<open>fillna(0)\<close> on one value: NaN becomes 0, an infinity stays.\<close>

fun fillna_0 :: "reading \<Rightarrow> reading" where
  "fillna_0 (Value x) = Value x"
| "fillna_0 Infinite = Infinite"
| "fillna_0 Not_a_number = Value 0"

text \<open>The integer part of a number (rounding towards zero), as the cast of a float to an
  integer and Python's \<^verbatim>\<open>int\<close> take it.\<close>

definition int_part :: "real \<Rightarrow> int" where
  "int_part x = (if 0 \<le> x then \<lfloor>x\<rfloor> else \<lceil>x\<rceil>)"

text \<open>A signed 64-bit integer: a value outside the range from \<open>- 2 ^ 63\<close> to
  \<open>2 ^ 63 - 1\<close> wraps around.\<close>

definition int64 :: "int \<Rightarrow> int" where
  "int64 n = (n + 2 ^ 63) mod 2 ^ 64 - 2 ^ 63"

text \<open>\<^verbatim>\<open>astype(int)\<close> on one value: the cast to a signed 64-bit integer; pandas raises
  IntCastingNaNError when the column holds a value that is not finite.\<close>

fun astype_int :: "reading \<Rightarrow> string + int" where
  "astype_int (Value x) = Inr (int64 (int_part x))"
| "astype_int Infinite = Inl ''Cannot convert non-finite values (NA or inf) to integer''"
| "astype_int Not_a_number = Inl ''Cannot convert non-finite values (NA or inf) to integer''"

text \<open>\<^verbatim>\<open>pd.to_numeric(x, errors="coerce").fillna(0).astype(int)\<close> on one cell.\<close>

definition coerce_int :: "(string \<Rightarrow> reading) \<Rightarrow> cell \<Rightarrow> string + int" where
  "coerce_int to_numeric x = astype_int (fillna_0 (to_numeric_cell to_numeric x))"

text \<open>The first exception of a sequence of results, if any.\<close>

fun first_error :: "(string + 'a) list \<Rightarrow> string option" where
  "first_error [] = None"
| "first_error (Inl e # xs) = Some e"
| "first_error (Inr v # xs) = first_error xs"

function string_of_nat :: "nat \<Rightarrow> string" where
  "string_of_nat n =
     (if n < 10 then [''0123456789'' ! n]
      else string_of_nat (n div 10) @ [''0123456789'' ! (n mod 10)])"
  by pat_completeness auto
termination
  by (relation "measure id") auto

declare string_of_nat.simps [simp del]

text \<open>\<^verbatim>\<open>astype(str)\<close> on one cell.\<close>

fun str_cell :: "cell \<Rightarrow> string" where
  "str_cell (Text s) = s"
| "str_cell (Num n) = (if n < 0 then CHR ''-'' # string_of_nat (nat (- n)) else string_of_nat (nat n))"
| "str_cell NaN = ''nan''"
| "str_cell Null = ''None''"

definition upper_char :: "char \<Rightarrow> char" where
  "upper_char c =
     (case map_of (zip ''abcdefghijklmnopqrstuvwxyz'' ''ABCDEFGHIJKLMNOPQRSTUVWXYZ'') c of
        None \<Rightarrow> c
      | Some u \<Rightarrow> u)"

definition upper :: "string \<Rightarrow> string" where
  "upper s = map upper_char s"

text \<open>One result set of the provider: its column names and its rows, each row holding one
  cell per column.\<close>

record frame =
  columns :: "string list"
  rows :: "cell list list"

text \<open>A season series after normalisation: per row the season key and the integer
  columns by name, in column order.\<close>

type_synonym season_row = "string \<times> (string \<times> int) list"

section \<open>Authoritative Totals Fetcher: \<^verbatim>\<open>nba_career_by_season\<close>\<close>

definition needed_cols :: "string list" where
  "needed_cols = ''SEASON_ID'' # ''GP'' # map fst METRICS"

definition keep_cols :: "string list" where
  "keep_cols = ''GP'' # map fst METRICS"

text \<open>The first frame whose upper-cased column set holds every needed column.\<close>

definition find_seasonal_frame :: "frame list \<Rightarrow> frame option" where
  "find_seasonal_frame frames =
     find (\<lambda>f. set needed_cols \<subseteq> set (map upper (columns f))) frames"

text \<open>\<^verbatim>\<open>df[c]\<close> in one row, given the cells of the row by column name: the cell of
  column \<open>c\<close>, and the 0 of \<^verbatim>\<open>df[c] = 0\<close> for a column that the frame does not have.\<close>

definition column_cell :: "(string \<times> cell) list \<Rightarrow> string \<Rightarrow> cell" where
  "column_cell df c = (case map_of df c of None \<Rightarrow> Num 0 | Some v \<Rightarrow> v)"

text \<open>
  Two columns whose names differ only in case have the same name after the renaming, and
  \<^verbatim>\<open>df[c]\<close> is then a frame, not a column: for \<^verbatim>\<open>SEASON_ID\<close> the assignment to
  \<^verbatim>\<open>df["season"]\<close> raises ValueError, for a kept column \<^verbatim>\<open>pd.to_numeric\<close> raises
  TypeError.
\<close>

definition duplicated :: "string list \<Rightarrow> string \<Rightarrow> bool" where
  "duplicated cols c = (1 < count_list cols c)"

text \<open>
  One pass of \<^verbatim>\<open>for c in ["GP"] + [m for m, _ in METRICS]\<close>: the exception that the
  coercion of column \<open>c\<close> raises, if any.
\<close>

definition column_error :: "(string \<Rightarrow> reading) \<Rightarrow> frame \<Rightarrow> string \<Rightarrow> string + unit" where
  "column_error to_numeric f c =
     (if duplicated (map upper (columns f)) c
      then Inl ''arg must be a list, tuple, 1-d array, or Series''
      else case first_error (map (\<lambda>r. coerce_int to_numeric
                                          (column_cell (zip (map upper (columns f)) r) c))
                                 (rows f)) of
             Some e \<Rightarrow> Inl e
           | None \<Rightarrow> Inr ())"

text \<open>The exception that the normalisation of the matched frame raises, if any: the
  statements run in order, and the columns are coerced in order. None of these exceptions
  is caught in \<^verbatim>\<open>nba_career_by_season\<close>.\<close>

definition season_frame_error :: "(string \<Rightarrow> reading) \<Rightarrow> frame \<Rightarrow> string option" where
  "season_frame_error to_numeric f =
     (if duplicated (map upper (columns f)) ''SEASON_ID''
      then Some ''Cannot set a DataFrame with multiple columns to the single column season''
      else first_error (map (column_error to_numeric f) keep_cols))"

text \<open>
  The normalised frame, row by row: columns renamed to upper case,
  \<^verbatim>\<open>season = SEASON_ID.astype(str)\<close>, a kept column that is not there set to 0, and each
  kept column coerced to int. The rows are read only when the normalisation raises nothing
  (see \<open>nba_career_by_season\<close>): then no needed column occurs twice, so the lookup by name
  is the column, and every coercion gives an integer.
\<close>

definition normalize_row :: "(string \<Rightarrow> reading) \<Rightarrow> string list \<Rightarrow> cell list \<Rightarrow> season_row" where
  "normalize_row to_numeric cols r =
     (let df = zip (map upper cols) r
      in (str_cell (column_cell df ''SEASON_ID''),
          map (\<lambda>c. (c, case coerce_int to_numeric (column_cell df c) of
                          Inl e \<Rightarrow> 0
                        | Inr n \<Rightarrow> n)) keep_cols))"

text \<open>
  \<^verbatim>\<open>nba_career_by_season\<close>. \<open>remote\<close> is the provider's answer to the career request
  per attempt: the frames of the response, or an exception. An exception that
  \<^verbatim>\<open>request_with_retries\<close> raises, or the normalisation, propagates.
\<close>

definition nba_career_by_season ::
  "(string \<Rightarrow> reading) \<Rightarrow> (nat \<Rightarrow> frame list outcome) \<Rightarrow> (nat \<Rightarrow> nat) \<Rightarrow>
   string + season_row list" where
  "nba_career_by_season to_numeric remote uniform =
     (case result (request_with_retries remote uniform) of
        Inl e \<Rightarrow> Inl e
      | Inr frames \<Rightarrow>
          (case find_seasonal_frame frames of
             None \<Rightarrow> Inr []
           | Some df_match \<Rightarrow>
               (case season_frame_error to_numeric df_match of
                  Some e \<Rightarrow> Inl e
                | None \<Rightarrow>
                    Inr (map (normalize_row to_numeric (columns df_match)) (rows df_match)))))"

section \<open>Local Totals Aggregator: table \<^verbatim>\<open>game_summary\<close>\<close>

text \<open>A row of \<^verbatim>\<open>game_summary\<close>; the game id and a metric column may hold NULL.\<close>

record game =
  g_player_id :: string
  g_game_id :: "string option"
  g_season :: string
  g_season_type :: string
  g_points :: "int option"
  g_rebounds :: "int option"
  g_assists :: "int option"
  g_steals :: "int option"
  g_blocks :: "int option"

text \<open>\<^verbatim>\<open>COALESCE(SUM(col), 0)\<close>: SUM skips NULL, and is NULL itself over no value.\<close>

definition sum_col :: "(game \<Rightarrow> int option) \<Rightarrow> game list \<Rightarrow> int" where
  "sum_col col gs = sum_list (map (\<lambda>g. case col g of None \<Rightarrow> 0 | Some v \<Rightarrow> v) gs)"

text \<open>\<^verbatim>\<open>WHERE player_id = ? AND season_type = 'Regular Season'\<close>.\<close>

definition regular_games :: "game list \<Rightarrow> string \<Rightarrow> game list" where
  "regular_games games player_id =
     filter (\<lambda>g. g_player_id g = player_id \<and> g_season_type g = REGULAR_SEASON) games"

text \<open>
  \<^verbatim>\<open>db_career_by_season\<close>: one row per season of the player's regular-season games
  (GROUP BY season), with the five sums. The groups come in the order of first
  appearance; the merge below sorts the season keys.
\<close>

definition db_career_by_season :: "game list \<Rightarrow> string \<Rightarrow> season_row list" where
  "db_career_by_season games player_id =
     (let gs = regular_games games player_id
      in map (\<lambda>s. let grp = filter (\<lambda>g. g_season g = s) gs
                  in (s, [(''points'', sum_col g_points grp),
                          (''rebounds'', sum_col g_rebounds grp),
                          (''assists'', sum_col g_assists grp),
                          (''steals'', sum_col g_steals grp),
                          (''blocks'', sum_col g_blocks grp)]))
             (remdups (map g_season gs)))"

section \<open>Season Aligner and Delta Calculator: \<^verbatim>\<open>process_player\<close>\<close>

text \<open>
  A row of \<^verbatim>\<open>pd.merge(nba_df2, db_df2, on="season", how="outer")\<close>. The two sides
  share no column name but \<^verbatim>\<open>season\<close>, so no suffix is applied; a side that has no row
  for the season has NaN in all its columns, which is \<open>None\<close> here.
\<close>

record merged_row =
  m_season :: string
  m_nba :: "(string \<times> int) list option"
  m_db :: "(string \<times> int) list option"

text \<open>The rows of the merge for one season key: every pairing of a left row with a right
  row of that key, or the rows of the one side that has the key.\<close>

definition rows_for :: "season_row list \<Rightarrow> season_row list \<Rightarrow> string \<Rightarrow> merged_row list" where
  "rows_for left right k =
     (let ls = filter (\<lambda>r. fst r = k) left;
          rs = filter (\<lambda>r. fst r = k) right
      in if rs = [] then map (\<lambda>l. \<lparr> m_season = k, m_nba = Some (snd l), m_db = None \<rparr>) ls
         else if ls = [] then map (\<lambda>r. \<lparr> m_season = k, m_nba = None, m_db = Some (snd r) \<rparr>) rs
         else concat (map (\<lambda>l. map (\<lambda>r. \<lparr> m_season = k, m_nba = Some (snd l),
                                              m_db = Some (snd r) \<rparr>) rs) ls))"

text \<open>The outer merge: the union of the keys of both sides, sorted, each key with its rows.\<close>

definition merge_outer :: "season_row list \<Rightarrow> season_row list \<Rightarrow> merged_row list" where
  "merge_outer left right =
     concat (map (rows_for left right) (sort (remdups (map fst left @ map fst right))))"

text \<open>
  The columns \<^verbatim>\<open>{dst}_nba\<close> and \<^verbatim>\<open>{dst}_db\<close> that the code adds to the merged frame:
  \<^verbatim>\<open>pd.to_numeric(merged.get(name, 0), errors="coerce").fillna(0).astype(int)\<close>,
  so a NaN of the absent side and a column that is not there both give 0.
\<close>

definition filled :: "(string \<times> int) list option \<Rightarrow> string \<Rightarrow> int" where
  "filled side c =
     (case side of
        None \<Rightarrow> 0
      | Some vals \<Rightarrow> (case map_of vals c of None \<Rightarrow> 0 | Some v \<Rightarrow> v))"

definition nba_value :: "merged_row \<Rightarrow> string \<Rightarrow> int" where
  "nba_value row m = filled (m_nba row) m"

definition db_value :: "merged_row \<Rightarrow> string \<Rightarrow> int" where
  "db_value row dst = filled (m_db row) dst"

text \<open>The inner loop over \<^verbatim>\<open>METRICS\<close>: the dict \<^verbatim>\<open>deltas\<close> and the flag \<^verbatim>\<open>nonzero\<close>.\<close>

definition row_deltas :: "merged_row \<Rightarrow> (string \<rightharpoonup> int)" where
  "row_deltas row =
     fold (\<lambda>(m, dst) deltas. deltas(dst \<mapsto> nba_value row m - db_value row dst))
          METRICS Map.empty"

definition row_nonzero :: "merged_row \<Rightarrow> bool" where
  "row_nonzero row = list_ex (\<lambda>(m, dst). nba_value row m - db_value row dst \<noteq> 0) METRICS"

text \<open>
  The loop \<^verbatim>\<open>for _, row in merged.iterrows()\<close> of \<^verbatim>\<open>process_player\<close>: a row whose season
  is the empty string is skipped (\<^verbatim>\<open>if not season: continue\<close>), a row with a non-zero
  delta is upserted and counted.
\<close>

fun process_rows :: "override_table \<Rightarrow> string \<Rightarrow> merged_row list \<Rightarrow> nat \<Rightarrow> override_table \<times> nat" where
  "process_rows conn player_id [] updated = (conn, updated)"
| "process_rows conn player_id (row # rest) updated =
     (if m_season row = [] then process_rows conn player_id rest updated
      else if row_nonzero row
      then process_rows (upsert_override conn player_id (m_season row) (row_deltas row))
             player_id rest (updated + 1)
      else process_rows conn player_id rest updated)"

text \<open>\<^verbatim>\<open>nba_df[["season"] + [m for m, _ in METRICS]]\<close>: the GP column is dropped.\<close>

definition metric_columns :: "season_row list \<Rightarrow> season_row list" where
  "metric_columns df =
     map (\<lambda>(season, vals). (season, filter (\<lambda>(c, v). c \<in> set (map fst METRICS)) vals)) df"

text \<open>
  \<^verbatim>\<open>process_player\<close> of \<^verbatim>\<open>batch_overrides_from_discrepancies.py\<close>. \<open>remote\<close> is the
  provider's answer to the career request for a player, per attempt; \<open>games\<close> is the table
  \<^verbatim>\<open>game_summary\<close>, \<open>conn\<close> the override table (which \<^verbatim>\<open>ensure_table\<close> has created). An
  error of the fetch propagates.
\<close>

definition process_player ::
  "(string \<Rightarrow> reading) \<Rightarrow> (string \<Rightarrow> nat \<Rightarrow> frame list outcome) \<Rightarrow> (nat \<Rightarrow> nat) \<Rightarrow>
   game list \<Rightarrow> override_table \<Rightarrow> string \<Rightarrow> string + (override_table \<times> nat)" where
  "process_player to_numeric remote uniform games conn player_id =
     (case nba_career_by_season to_numeric (remote player_id) uniform of
        Inl e \<Rightarrow> Inl e
      | Inr nba_df \<Rightarrow>
          Inr (process_rows conn player_id
                 (merge_outer (metric_columns nba_df) (db_career_by_season games player_id)) 0))"

text \<open>The calls of \<^verbatim>\<open>upsert_override\<close> that the loop makes, in order: season and deltas.\<close>

definition upsert_calls :: "merged_row list \<Rightarrow> (string \<times> (string \<rightharpoonup> int)) list" where
  "upsert_calls merged =
     map (\<lambda>row. (m_season row, row_deltas row))
         (filter (\<lambda>row. m_season row \<noteq> [] \<and> row_nonzero row) merged)"

section \<open>Corrected-total read: \<^verbatim>\<open>get_db_total\<close>\<close>

definition game_col :: "string \<Rightarrow> (game \<Rightarrow> int option) option" where
  "game_col = map_of [(''points'', g_points), (''rebounds'', g_rebounds),
                      (''assists'', g_assists), (''steals'', g_steals), (''blocks'', g_blocks)]"

definition override_col :: "string \<Rightarrow> (override_row \<Rightarrow> int) option" where
  "override_col = map_of [(''points'', points), (''rebounds'', rebounds),
                          (''assists'', assists), (''steals'', steals), (''blocks'', blocks)]"

text \<open>\<^verbatim>\<open>SELECT COALESCE(SUM(col), 0) FROM season_totals_override WHERE player_id = ? AND
  season_type = 'Regular Season'\<close>.\<close>

definition override_total :: "(override_row \<Rightarrow> int) \<Rightarrow> override_table \<Rightarrow> string \<Rightarrow> int" where
  "override_total col tbl player_id =
     sum_list (map (\<lambda>(k, r). col r)
                   (filter (\<lambda>(k, r). fst k = player_id \<and> snd (snd k) = REGULAR_SEASON) tbl))"

text \<open>
  \<^verbatim>\<open>get_db_total\<close> of \<^verbatim>\<open>validate_alltime_leaders.py\<close>: the raw regular-season sum plus the
  sum of the player's regular-season overrides. A column that \<^verbatim>\<open>game_summary\<close> does not
  have makes the first query raise; any error of the second query (no override table, no
  such column) counts as an override total of 0.
\<close>

definition get_db_total ::
  "game list \<Rightarrow> override_table option \<Rightarrow> string \<Rightarrow> string \<Rightarrow> string + int" where
  "get_db_total games overrides player_id db_col =
     (case game_col db_col of
        None \<Rightarrow> Inl (''no such column: '' @ db_col)
      | Some gc \<Rightarrow>
          (let base_total = sum_col gc (regular_games games player_id);
               override_sum =
                 (case overrides of
                    None \<Rightarrow> 0
                  | Some tbl \<Rightarrow>
                      (case override_col db_col of
                         None \<Rightarrow> 0
                       | Some oc \<Rightarrow> override_total oc tbl player_id))
           in Inr (base_total + override_sum)))"

text \<open>The sum of one column over a season series: the career total of that metric.\<close>

definition column_sum :: "season_row list \<Rightarrow> string \<Rightarrow> int" where
  "column_sum df c = sum_list (map (\<lambda>(s, vals). filled (Some vals) c) df)"

section \<open>Leaderboard validation: the row loop of \<^verbatim>\<open>validate_metric\<close>\<close>

text \<open>\<^verbatim>\<open>METRICS[metric_key]\<close> of \<^verbatim>\<open>validate_alltime_leaders.py\<close>: the table column and
  the local column of a metric key (the key and the local column have the same name).\<close>

definition metric_meta :: "string \<Rightarrow> (string \<times> string) option" where
  "metric_meta metric_key = map_of (map (\<lambda>(m, dst). (dst, (m, dst))) METRICS) metric_key"

text \<open>A row of the leaders frame: its cells by column name.\<close>

type_synonym leader_row = "(string \<times> cell) list"

text \<open>
  Python's \<^verbatim>\<open>int(x)\<close> on what the row holds, \<open>None\<close> when it raises: a missing column
  leaves \<^verbatim>\<open>None\<close> and \<^verbatim>\<open>int(None)\<close> is a TypeError, as it is for a cell that holds
  \<^verbatim>\<open>None\<close>; NaN raises ValueError. How \<^verbatim>\<open>int\<close> reads a text is Python's own parser:
  it is the parameter \<open>int_of_text\<close>, which gives the integer, and \<open>None\<close> for a text
  on which \<^verbatim>\<open>int\<close> raises ValueError.
\<close>

fun py_int :: "(string \<Rightarrow> int option) \<Rightarrow> cell option \<Rightarrow> int option" where
  "py_int int_of_text (Some (Num n)) = Some n"
| "py_int int_of_text (Some (Text s)) = int_of_text s"
| "py_int int_of_text (Some NaN) = None"
| "py_int int_of_text (Some Null) = None"
| "py_int int_of_text None = None"

text \<open>The first of the candidate columns that the row has.\<close>

definition first_present :: "string list \<Rightarrow> leader_row \<Rightarrow> string option" where
  "first_present cands row = find (\<lambda>c. c \<in> fst ` set row) cands"

text \<open>The official metric value of the row, before conversion: column \<open>table_key\<close>, else
  \<^verbatim>\<open>VALUE\<close>, else the lower-cased \<open>table_key\<close>, else \<^verbatim>\<open>None\<close>.\<close>

definition official_cell :: "leader_row \<Rightarrow> string \<Rightarrow> cell option" where
  "official_cell row table_key =
     (if table_key \<in> fst ` set row then map_of row table_key
      else if ''VALUE'' \<in> fst ` set row then map_of row ''VALUE''
      else if lower table_key \<in> fst ` set row then map_of row (lower table_key)
      else None)"

record report_row =
  r_metric :: string
  r_rank :: "int option"
  r_player_id :: string
  r_player :: string
  r_nba_official :: int
  r_db_total :: int
  r_delta :: int
  r_null_season_type_rows :: int

text \<open>
  One pass of the loop body of \<^verbatim>\<open>validate_metric\<close>. \<open>Inr None\<close> is \<^verbatim>\<open>continue\<close>: the
  row gives no report row; \<open>Inl\<close> is an exception that leaves the function.
  \<open>null_count\<close> stands for \<^verbatim>\<open>get_null_season_type_count\<close>, which reads the table
  \<^verbatim>\<open>player_stats\<close>.
\<close>

definition validate_row ::
  "(string \<Rightarrow> int option) \<Rightarrow> game list \<Rightarrow> override_table option \<Rightarrow> (string \<Rightarrow> int) \<Rightarrow>
   string \<Rightarrow> string option \<Rightarrow> leader_row \<Rightarrow> string + report_row option" where
  "validate_row int_of_text games overrides null_count metric_key rank_col row =
     (case metric_meta metric_key of
        None \<Rightarrow> Inl (''KeyError: '' @ metric_key)
      | Some (table_key, db_col) \<Rightarrow>
          (case first_present [''PLAYER_ID'', ''PERSON_ID'', ''PLAYERID'', ''PERSONID''] row of
             None \<Rightarrow> Inr None
           | Some pid_col \<Rightarrow>
               (let player_id = str_cell (column_cell row pid_col);
                    player_name =
                      (case first_present [''PLAYER'', ''PLAYER_NAME'', ''PLAYER_NAME_LAST_FIRST'',
                                           ''DISPLAY_FIRST_LAST''] row of
                         None \<Rightarrow> ''Unknown''
                       | Some pn \<Rightarrow>
                           (let n = str_cell (column_cell row pn)
                            in if n = [] then ''Unknown'' else n))
                in case py_int int_of_text (official_cell row table_key) of
                     None \<Rightarrow> Inr None
                   | Some official_value \<Rightarrow>
                       (case get_db_total games overrides player_id db_col of
                          Inl e \<Rightarrow> Inl e
                        | Inr db_total \<Rightarrow>
                            (case (case rank_col of
                                     None \<Rightarrow> Some None
                                   | Some rc \<Rightarrow>
                                       if rc \<in> fst ` set row
                                       then map_option Some (py_int int_of_text (map_of row rc))
                                       else Some None) of
                               None \<Rightarrow> Inl ''ValueError: rank''
                             | Some rank \<Rightarrow>
                                 Inr (Some \<lparr> r_metric = metric_key, r_rank = rank,
                                             r_player_id = player_id, r_player = player_name,
                                             r_nba_official = official_value,
                                             r_db_total = db_total,
                                             r_delta = db_total - official_value,
                                             r_null_season_type_rows = null_count player_id \<rparr>))))))"

text \<open>The loop over the leaders (already sorted and cut to the top 25): the report rows in
  order. The discrepancies are the report rows with a non-zero delta.\<close>

fun validate_rows ::
  "(string \<Rightarrow> int option) \<Rightarrow> game list \<Rightarrow> override_table option \<Rightarrow> (string \<Rightarrow> int) \<Rightarrow>
   string \<Rightarrow> string option \<Rightarrow> leader_row list \<Rightarrow> string + report_row list" where
  "validate_rows int_of_text games overrides null_count metric_key rank_col [] = Inr []"
| "validate_rows int_of_text games overrides null_count metric_key rank_col (row # rest) =
     (case validate_row int_of_text games overrides null_count metric_key rank_col row of
        Inl e \<Rightarrow> Inl e
      | Inr r \<Rightarrow>
          (case validate_rows int_of_text games overrides null_count metric_key rank_col rest of
             Inl e \<Rightarrow> Inl e
           | Inr rs \<Rightarrow> Inr ((case r of None \<Rightarrow> [] | Some x \<Rightarrow> [x]) @ rs)))"

definition discrepancies :: "report_row list \<Rightarrow> report_row list" where
  "discrepancies report_rows = filter (\<lambda>r. r_delta r \<noteq> 0) report_rows"

section \<open>Totals Cache and \<^verbatim>\<open>fetch_official_totals\<close>\<close>

text \<open>A totals record (a dict from metric column to career total) and the cache (a dict
  from player id to totals record), both as association lists in insertion order.\<close>

type_synonym totals = "(string \<times> int) list"

type_synonym career_cache = "(string \<times> totals) list"

text \<open>
  What is at the cache path: no file; a file that cannot be read or parsed (truncated or
  corrupt JSON, I/O error); JSON that is not an object; or a stored cache, whose entries
  are totals records as \<^verbatim>\<open>_save_cache\<close> writes them.
\<close>

datatype cache_file = NoFile | Unreadable | NotADict | Stored career_cache

record cache_state =
  CAREER_CACHE :: career_cache
  cache_on_disk :: cache_file
  remote_requests :: nat

definition TRACKED :: "string list" where
  "TRACKED = [''PTS'', ''REB'', ''AST'', ''STL'', ''BLK'']"

text \<open>\<^verbatim>\<open>_load_cache\<close>: the in-memory cache after the call. Only a parsed object replaces
  it; any exception empties it.\<close>

definition load_cache :: "career_cache \<Rightarrow> cache_file \<Rightarrow> career_cache" where
  "load_cache mem file =
     (case file of
        NoFile \<Rightarrow> mem
      | Unreadable \<Rightarrow> []
      | NotADict \<Rightarrow> mem
      | Stored data \<Rightarrow> data)"

text \<open>\<^verbatim>\<open>_save_cache\<close>: the file after the call. The cache is written to a temporary file
  that replaces the cache file; when any step fails (\<open>write_ok\<close> false) the exception is
  swallowed and the cache file is as before.\<close>

definition save_cache :: "bool \<Rightarrow> career_cache \<Rightarrow> cache_file \<Rightarrow> cache_file" where
  "save_cache write_ok mem file = (if write_ok then Stored mem else file)"

text \<open>\<^verbatim>\<open>cached and all(k in cached for k in [...])\<close>.\<close>

definition full_record :: "totals \<Rightarrow> bool" where
  "full_record cached = (cached \<noteq> [] \<and> list_all (\<lambda>k. k \<in> fst ` set cached) TRACKED)"

text \<open>
  \<^verbatim>\<open>df_match[c]\<close> as the argument of \<^verbatim>\<open>pd.to_numeric\<close>: the cells of the one column
  named exactly \<open>c\<close>. \<open>None\<close> stands for the exception otherwise: a KeyError when the
  frame has no such column, a TypeError of \<^verbatim>\<open>pd.to_numeric\<close> when it has several
  (\<^verbatim>\<open>df_match[c]\<close> is then a frame).
\<close>

definition column_cells :: "frame \<Rightarrow> string \<Rightarrow> cell list option" where
  "column_cells f c =
     (if count_list (columns f) c = 1
      then Some (map (\<lambda>r. column_cell (zip (columns f) r) c) (rows f))
      else None)"

text \<open>
  \<^verbatim>\<open>int(pd.to_numeric(col, errors="coerce").fillna(0).sum())\<close>: the integer part of the
  sum of the column (no \<^verbatim>\<open>astype\<close> here). When a value of the column is an infinity,
  the sum is an infinity or NaN and \<^verbatim>\<open>int\<close> raises: that is \<open>None\<close>.
\<close>

fun finite_sum :: "reading list \<Rightarrow> real option" where
  "finite_sum [] = Some 0"
| "finite_sum (Value x # xs) = map_option (\<lambda>t. x + t) (finite_sum xs)"
| "finite_sum (Infinite # xs) = None"
| "finite_sum (Not_a_number # xs) = None"

definition coerced_sum :: "(string \<Rightarrow> reading) \<Rightarrow> cell list \<Rightarrow> int option" where
  "coerced_sum to_numeric cells =
     map_option int_part (finite_sum (map (\<lambda>x. fillna_0 (to_numeric_cell to_numeric x)) cells))"

text \<open>The totals dict built from the matched frame; \<open>None\<close> when a column access or a
  sum raises (the enclosing \<^verbatim>\<open>except Exception: return None\<close>).\<close>

fun totals_of_columns :: "(string \<Rightarrow> reading) \<Rightarrow> frame \<Rightarrow> string list \<Rightarrow> totals option" where
  "totals_of_columns to_numeric f [] = Some []"
| "totals_of_columns to_numeric f (c # cs) =
     (case column_cells f c of
        None \<Rightarrow> None
      | Some cells \<Rightarrow>
          (case coerced_sum to_numeric cells of
             None \<Rightarrow> None
           | Some column_total \<Rightarrow>
               (case totals_of_columns to_numeric f cs of
                  None \<Rightarrow> None
                | Some rest \<Rightarrow> Some ((c, column_total) # rest))))"

text \<open>The body of the \<^verbatim>\<open>try\<close> of \<^verbatim>\<open>fetch_official_totals\<close> up to the cache write: the
  request, the choice of the first frame whose upper-cased columns hold the five metrics,
  the sums. Every failure gives \<open>None\<close>.\<close>

definition remote_totals ::
  "(string \<Rightarrow> reading) \<Rightarrow> (nat \<Rightarrow> frame list outcome) \<Rightarrow> (nat \<Rightarrow> nat) \<Rightarrow> totals option" where
  "remote_totals to_numeric remote uniform =
     (case result (request_with_retries remote uniform) of
        Inl e \<Rightarrow> None
      | Inr frames \<Rightarrow>
          (case find (\<lambda>f. set TRACKED \<subseteq> set (map upper (columns f))) frames of
             None \<Rightarrow> None
           | Some df_match \<Rightarrow> totals_of_columns to_numeric df_match TRACKED))"

text \<open>The in-memory cache that the lookup reads: loaded from the file when it is empty.\<close>

definition effective_cache :: "cache_state \<Rightarrow> career_cache" where
  "effective_cache st =
     (if CAREER_CACHE st = [] then load_cache (CAREER_CACHE st) (cache_on_disk st)
      else CAREER_CACHE st)"

text \<open>\<^verbatim>\<open>fetch_official_totals\<close>: the returned totals (\<open>None\<close> when unavailable) and the
  state afterwards. \<open>remote_requests\<close> counts the calls of \<^verbatim>\<open>request_with_retries\<close>.\<close>

definition fetch_official_totals ::
  "(string \<Rightarrow> reading) \<Rightarrow> (string \<Rightarrow> nat \<Rightarrow> frame list outcome) \<Rightarrow> (nat \<Rightarrow> nat) \<Rightarrow> bool \<Rightarrow>
   cache_state \<Rightarrow> string \<Rightarrow> totals option \<times> cache_state" where
  "fetch_official_totals to_numeric remote uniform write_ok st player_id =
     (let st1 = st\<lparr> CAREER_CACHE := effective_cache st \<rparr>;
          cached = map_of (CAREER_CACHE st1) player_id
      in if (case cached of None \<Rightarrow> False | Some c \<Rightarrow> full_record c)
         then (cached, st1)
         else
           (let st2 = st1\<lparr> remote_requests := remote_requests st1 + 1 \<rparr>
            in case remote_totals to_numeric (remote player_id) uniform of
                 None \<Rightarrow> (None, st2)
               | Some totals \<Rightarrow>
                   (let mem = AList.update player_id totals (CAREER_CACHE st2)
                    in (Some totals,
                        st2\<lparr> CAREER_CACHE := mem,
                             cache_on_disk := save_cache write_ok mem (cache_on_disk st2) \<rparr>))))"

section \<open>Batch drivers\<close>

subsection \<open>\<^verbatim>\<open>main\<close> of \<^verbatim>\<open>batch_overrides_from_discrepancies.py\<close>\<close>




subsection \<open>\<^verbatim>\<open>update_database\<close> of \<^verbatim>\<open>update_active_players_nba_api.py\<close>\<close>












section \<open>Example data\<close>

text \<open>Concrete inputs on which the theorems below are evaluated: a provider that answers
  the first attempt, a fixed jitter draw, a one-row career frame, a game row, and a small
  store.\<close>

definition always_returns :: "'a \<Rightarrow> string \<Rightarrow> nat \<Rightarrow> 'a outcome" where
  "always_returns v player_id attempt = Returned v"

definition fixed_uniform :: "nat \<Rightarrow> nat" where
  "fixed_uniform attempt = 2 ^ 52"

definition example_frame :: "string \<Rightarrow> int \<Rightarrow> frame" where
  "example_frame season_id pts =
     \<lparr> columns = [''SEASON_ID'', ''GP'', ''PTS'', ''REB'', ''AST'', ''STL'', ''BLK''],
       rows = [[Text season_id, Num 1, Num pts, Num 0, Num 0, Num 0, Num 0]] \<rparr>"

definition example_game :: "string \<Rightarrow> string \<Rightarrow> int \<Rightarrow> game" where
  "example_game player_id season pts =
     \<lparr> g_player_id = player_id, g_game_id = Some ''0021900001'', g_season = season,
       g_season_type = ''Regular Season'', g_points = Some pts, g_rebounds = Some 0,
       g_assists = Some 0, g_steals = Some 0, g_blocks = Some 0 \<rparr>"

definition example_frames :: "frame list" where
  "example_frames =
     [\<lparr> columns = [''PLAYER_ID'', ''LEAGUE_ID''], rows = [[Num 7, Text ''00'']] \<rparr>,
      \<lparr> columns = [''Season_Id'', ''gp'', ''PTS'', ''REB'', ''AST'', ''STL'', ''BLK'', ''TEAM''],
        rows = [[Text ''2019-20'', Num 60, Num 100, Num 10, Text ''n/a'', NaN, Num 2, Text ''LAL''],
                [Text ''2018-19'', Num 55, Num 50, Num 1, Num 2, Num 3, Num 4, Text ''LAL'']] \<rparr>]"

definition example_frames_two :: "frame list" where
  "example_frames_two =
     [\<lparr> columns = [''SEASON_ID'', ''GP'', ''PTS'', ''REB'', ''AST'', ''STL'', ''BLK''],
        rows = [[Text ''2018-19'', Num 1, Num 50, Num 0, Num 0, Num 0, Num 0],
                [Text ''2019-20'', Num 1, Num 100, Num 0, Num 0, Num 0, Num 0]] \<rparr>]"

definition example_games :: "game list" where
  "example_games =
     [example_game ''7'' ''2019-20'' 50, example_game ''7'' ''2020-21'' 3,
      example_game ''9'' ''2019-20'' 11, example_game ''7'' ''2019-20'' 42]"

definition example_overrides :: override_table where
  "example_overrides =
     [((''9'', ''2019-20'', ''Regular Season''),
       \<lparr> points = 4, rebounds = 0, assists = 0, steals = 0, blocks = 0 \<rparr>),
      ((''7'', ''2019-20'', ''Regular Season''),
       \<lparr> points = 1, rebounds = 1, assists = 1, steals = 1, blocks = 1 \<rparr>)]"

definition example_official :: "season_row list" where
  "example_official =
     [(''2019-20'', [(''PTS'', 100), (''REB'', 10), (''AST'', 0), (''STL'', 0), (''BLK'', 2)]),
      (''2018-19'', [(''PTS'', 50), (''REB'', 1), (''AST'', 2), (''STL'', 3), (''BLK'', 4)])]"

definition example_local :: "season_row list" where
  "example_local =
     [(''2020-21'', [(''points'', 3), (''rebounds'', 0), (''assists'', 0), (''steals'', 0), (''blocks'', 0)]),
      (''2019-20'', [(''points'', 92), (''rebounds'', 0), (''assists'', 0), (''steals'', 0), (''blocks'', 0)])]"

definition no_null_rows :: "string \<Rightarrow> int" where
  "no_null_rows player_id = 0"


text \<open>An example reader of integers in text: a plain decimal integer (an optional minus
  sign, then digits) is read as that integer, as \<^verbatim>\<open>int\<close> reads it, and nothing else is
  read.\<close>

fun digits_value :: "string \<Rightarrow> nat \<Rightarrow> nat option" where
  "digits_value [] acc = Some acc"
| "digits_value (c # cs) acc =
     (case map_of (zip ''0123456789'' [0..<10]) c of
        None \<Rightarrow> None
      | Some d \<Rightarrow> digits_value cs (10 * acc + d))"

definition decimal_text :: "string \<Rightarrow> int option" where
  "decimal_text s =
     (case s of
        [] \<Rightarrow> None
      | c # cs \<Rightarrow>
          if c = CHR ''-''
          then (if cs = [] then None else map_option (\<lambda>n. - int n) (digits_value cs 0))
          else map_option int (digits_value s 0))"

text \<open>An example of pandas' reader: a plain decimal integer is read as that integer, the
  text \<^verbatim>\<open>12.5\<close> as twelve and a half, the text \<^verbatim>\<open>inf\<close> as an infinity, and nothing else
  is read as a number.\<close>

definition example_to_numeric :: "string \<Rightarrow> reading" where
  "example_to_numeric s =
     (if s = ''inf'' then Infinite
      else if s = ''12.5'' then Value (25 / 2)
      else case decimal_text s of
             None \<Rightarrow> Not_a_number
           | Some n \<Rightarrow> Value (of_int n))"




definition example_totals :: totals where
  "example_totals = [(''PTS'', 1), (''REB'', 2), (''AST'', 3), (''STL'', 4), (''BLK'', 5)]"

text \<open>A response whose seasonal frame holds numbers as text, a text that is no number,
  NaN and \<^verbatim>\<open>None\<close>; a response whose seasonal frame has the points column twice once
  the names are in upper case; and a response whose seasonal frame holds an infinity.\<close>

definition example_text_frames :: "frame list" where
  "example_text_frames =
     [\<lparr> columns = [''Season_Id'', ''gp'', ''PTS'', ''REB'', ''AST'', ''STL'', ''BLK''],
        rows = [[Text ''2019-20'', Text ''60'', Text ''12'', Text ''12.5'', NaN, Null, Num 2],
                [Text ''2018-19'', Num 55, Num 50, Text ''12.5'', Text ''n/a'', Num 3,
                 Text ''-4'']] \<rparr>]"

definition example_duplicate_frames :: "frame list" where
  "example_duplicate_frames =
     [\<lparr> columns = [''SEASON_ID'', ''GP'', ''PTS'', ''pts'', ''REB'', ''AST'', ''STL'', ''BLK''],
        rows = [[Text ''2019-20'', Num 60, Num 100, Num 100, Num 10, Num 0, Num 0, Num 2]] \<rparr>]"

definition example_infinite_frames :: "frame list" where
  "example_infinite_frames =
     [\<lparr> columns = [''SEASON_ID'', ''GP'', ''PTS'', ''REB'', ''AST'', ''STL'', ''BLK''],
        rows = [[Text ''2019-20'', Num 60, Text ''inf'', Num 10, Num 0, Num 0, Num 2]] \<rparr>]"

text \<open>A response whose frame has the five metrics, the points under the name \<^verbatim>\<open>Pts\<close>.\<close>

definition example_mixed_case_frames :: "frame list" where
  "example_mixed_case_frames =
     [\<lparr> columns = [''Pts'', ''REB'', ''AST'', ''STL'', ''BLK''],
        rows = [[Num 100, Num 10, Num 0, Num 0, Num 2]] \<rparr>]"

text \<open>A cache state with nothing in memory and no cache file.\<close>

definition empty_cache_state :: cache_state where
  "empty_cache_state = \<lparr> CAREER_CACHE = [], cache_on_disk = NoFile, remote_requests = 0 \<rparr>"

section \<open>Properties of the Override Store\<close>

lemma update_twice_same: "AList.update k v (AList.update k v al) = AList.update k v al"
  by (induction al) auto

lemma lookup_upsert_same:
  "lookup_override (upsert_override conn p s d) (p, s, REGULAR_SEASON) = Some (row_of_deltas d)"
  by (simp add: lookup_override_def upsert_override_def update_conv')

lemma lookup_upsert_other:
  "k \<noteq> (p, s, REGULAR_SEASON) \<Longrightarrow>
   lookup_override (upsert_override conn p s d) k = lookup_override conn k"
  by (simp add: lookup_override_def upsert_override_def update_conv')

lemma distinct_upsert:
  "distinct (map fst conn) \<Longrightarrow> distinct (map fst (upsert_override conn p s d))"
  by (simp add: upsert_override_def distinct_update)

text \<open>
  C4. Upserting the same delta set twice for the same key gives the same table as
  upserting it once. After an upsert of the delta set with points \<open>a\<close>, rebounds \<open>b\<close>,
  assists \<open>c\<close>, steals \<open>t\<close> and blocks \<open>k\<close>, the row stored under the key has exactly
  these five values, whatever table was there and whatever was upserted under the key
  before: nothing of the prior row is added or merged in. For any deltas mapping the
  stored column is the value the mapping holds for the metric.
\<close>

theorem C4_upsert_idempotent_wholesale:
  "upsert_override (upsert_override conn p s d) p s d = upsert_override conn p s d
   \<and> lookup_override
        (upsert_override conn p s
           [''points'' \<mapsto> a, ''rebounds'' \<mapsto> b, ''assists'' \<mapsto> c, ''steals'' \<mapsto> t, ''blocks'' \<mapsto> k])
        (p, s, REGULAR_SEASON)
       = Some \<lparr> points = a, rebounds = b, assists = c, steals = t, blocks = k \<rparr>
   \<and> lookup_override
        (upsert_override (upsert_override conn p s d0) p s
           [''points'' \<mapsto> a, ''rebounds'' \<mapsto> b, ''assists'' \<mapsto> c, ''steals'' \<mapsto> t, ''blocks'' \<mapsto> k])
        (p, s, REGULAR_SEASON)
       = Some \<lparr> points = a, rebounds = b, assists = c, steals = t, blocks = k \<rparr>
   \<and> upsert_override (upsert_override conn p s d0) p s d = upsert_override conn p s d
   \<and> (\<exists>r. lookup_override (upsert_override conn p s d) (p, s, REGULAR_SEASON) = Some r
          \<and> (case d ''points'' of Some v \<Rightarrow> points r = v | None \<Rightarrow> points r = 0)
          \<and> (case d ''rebounds'' of Some v \<Rightarrow> rebounds r = v | None \<Rightarrow> rebounds r = 0)
          \<and> (case d ''assists'' of Some v \<Rightarrow> assists r = v | None \<Rightarrow> assists r = 0)
          \<and> (case d ''steals'' of Some v \<Rightarrow> steals r = v | None \<Rightarrow> steals r = 0)
          \<and> (case d ''blocks'' of Some v \<Rightarrow> blocks r = v | None \<Rightarrow> blocks r = 0))"
proof (intro conjI)
  let ?five = "[''points'' \<mapsto> a, ''rebounds'' \<mapsto> b, ''assists'' \<mapsto> c, ''steals'' \<mapsto> t, ''blocks'' \<mapsto> k]"
  have five: "row_of_deltas ?five = \<lparr> points = a, rebounds = b, assists = c, steals = t, blocks = k \<rparr>"
    by (simp add: row_of_deltas_def get0_def)
  show "upsert_override (upsert_override conn p s d) p s d = upsert_override conn p s d"
    by (simp add: upsert_override_def update_twice_same)
  show "lookup_override (upsert_override conn p s ?five) (p, s, REGULAR_SEASON)
       = Some \<lparr> points = a, rebounds = b, assists = c, steals = t, blocks = k \<rparr>"
    by (simp only: lookup_upsert_same five)
  show "lookup_override (upsert_override (upsert_override conn p s d0) p s ?five)
          (p, s, REGULAR_SEASON)
       = Some \<lparr> points = a, rebounds = b, assists = c, steals = t, blocks = k \<rparr>"
    by (simp only: lookup_upsert_same five)
  show "upsert_override (upsert_override conn p s d0) p s d = upsert_override conn p s d"
    by (simp add: upsert_override_def)
  show "\<exists>r. lookup_override (upsert_override conn p s d) (p, s, REGULAR_SEASON) = Some r
          \<and> (case d ''points'' of Some v \<Rightarrow> points r = v | None \<Rightarrow> points r = 0)
          \<and> (case d ''rebounds'' of Some v \<Rightarrow> rebounds r = v | None \<Rightarrow> rebounds r = 0)
          \<and> (case d ''assists'' of Some v \<Rightarrow> assists r = v | None \<Rightarrow> assists r = 0)
          \<and> (case d ''steals'' of Some v \<Rightarrow> steals r = v | None \<Rightarrow> steals r = 0)
          \<and> (case d ''blocks'' of Some v \<Rightarrow> blocks r = v | None \<Rightarrow> blocks r = 0)"
    by (simp add: lookup_upsert_same row_of_deltas_def get0_def split: option.splits)
qed

theorem C4_upsert_idempotent_wholesale_witness:
  "lookup_override
     (upsert_override
        (upsert_override
           [((''2544'', ''2019-20'', ''Regular Season''),
             \<lparr> points = 8, rebounds = 3, assists = 2, steals = 1, blocks = 4 \<rparr>)]
           ''2544'' ''2019-20''
           [''points'' \<mapsto> 10, ''rebounds'' \<mapsto> - 1, ''assists'' \<mapsto> 0, ''steals'' \<mapsto> 7, ''blocks'' \<mapsto> 5])
        ''2544'' ''2019-20''
        [''points'' \<mapsto> 10, ''rebounds'' \<mapsto> - 1, ''assists'' \<mapsto> 0, ''steals'' \<mapsto> 7, ''blocks'' \<mapsto> 5])
     (''2544'', ''2019-20'', ''Regular Season'')
     = Some \<lparr> points = 10, rebounds = - 1, assists = 0, steals = 7, blocks = 5 \<rparr>
   \<and> upsert_override
        (upsert_override
           [((''2544'', ''2019-20'', ''Regular Season''),
             \<lparr> points = 8, rebounds = 3, assists = 2, steals = 1, blocks = 4 \<rparr>)]
           ''2544'' ''2019-20''
           [''points'' \<mapsto> 10, ''rebounds'' \<mapsto> - 1, ''assists'' \<mapsto> 0, ''steals'' \<mapsto> 7, ''blocks'' \<mapsto> 5])
        ''2544'' ''2019-20''
        [''points'' \<mapsto> 10, ''rebounds'' \<mapsto> - 1, ''assists'' \<mapsto> 0, ''steals'' \<mapsto> 7, ''blocks'' \<mapsto> 5]
     = [((''2544'', ''2019-20'', ''Regular Season''),
         \<lparr> points = 10, rebounds = - 1, assists = 0, steals = 7, blocks = 5 \<rparr>)]"
proof -
  let ?conn = "[((''2544'', ''2019-20'', ''Regular Season''),
             \<lparr> points = 8, rebounds = 3, assists = 2, steals = 1, blocks = 4 \<rparr>)]"
  let ?d = "[''points'' \<mapsto> 10, ''rebounds'' \<mapsto> - 1, ''assists'' \<mapsto> 0, ''steals'' \<mapsto> 7, ''blocks'' \<mapsto> (5::int)]"
  note c4 = C4_upsert_idempotent_wholesale
      [where conn = ?conn and p = "''2544''" and s = "''2019-20''" and d = ?d and ?d0.0 = ?d
         and a = 10 and b = "- 1" and c = 0 and t = 7 and k = 5]
  have once: "upsert_override ?conn ''2544'' ''2019-20'' ?d
     = [((''2544'', ''2019-20'', ''Regular Season''),
         \<lparr> points = 10, rebounds = - 1, assists = 0, steals = 7, blocks = 5 \<rparr>)]"
    by (simp add: upsert_override_def REGULAR_SEASON_def row_of_deltas_def get0_def)
  from c4 have twice: "upsert_override (upsert_override ?conn ''2544'' ''2019-20'' ?d)
        ''2544'' ''2019-20'' ?d = upsert_override ?conn ''2544'' ''2019-20'' ?d"
    by blast
  from c4 have stored: "lookup_override
        (upsert_override (upsert_override ?conn ''2544'' ''2019-20'' ?d) ''2544'' ''2019-20'' ?d)
        (''2544'', ''2019-20'', REGULAR_SEASON)
      = Some \<lparr> points = 10, rebounds = - 1, assists = 0, steals = 7, blocks = 5 \<rparr>"
    by blast
  from stored twice once show ?thesis
    by (simp add: REGULAR_SEASON_def)
qed

text \<open>
  C10. Every upsert writes all five columns, and a metric key that the deltas mapping
  does not hold is stored as 0: upserting a mapping that lists only some metrics over an
  existing row zeroes the unlisted ones instead of keeping their previous values.
\<close>

theorem C10_missing_metric_stored_as_zero:
  "\<exists>r. lookup_override (upsert_override conn p s d) (p, s, REGULAR_SEASON) = Some r
        \<and> (d ''points'' = None \<longrightarrow> points r = 0)
        \<and> (d ''rebounds'' = None \<longrightarrow> rebounds r = 0)
        \<and> (d ''assists'' = None \<longrightarrow> assists r = 0)
        \<and> (d ''steals'' = None \<longrightarrow> steals r = 0)
        \<and> (d ''blocks'' = None \<longrightarrow> blocks r = 0)"
  by (simp add: lookup_upsert_same row_of_deltas_def get0_def)

theorem C10_missing_metric_stored_as_zero_witness:
  "[''points'' \<mapsto> (5::int)] ''rebounds'' = None
   \<and> lookup_override
       [((''2544'', ''2019-20'', ''Regular Season''),
         \<lparr> points = 8, rebounds = 3, assists = 2, steals = 1, blocks = 4 \<rparr>)]
       (''2544'', ''2019-20'', ''Regular Season'')
     = Some \<lparr> points = 8, rebounds = 3, assists = 2, steals = 1, blocks = 4 \<rparr>
   \<and> lookup_override
       (upsert_override
          [((''2544'', ''2019-20'', ''Regular Season''),
            \<lparr> points = 8, rebounds = 3, assists = 2, steals = 1, blocks = 4 \<rparr>)]
          ''2544'' ''2019-20'' [''points'' \<mapsto> 5])
       (''2544'', ''2019-20'', ''Regular Season'')
     = Some \<lparr> points = 5, rebounds = 0, assists = 0, steals = 0, blocks = 0 \<rparr>"
  using C10_missing_metric_stored_as_zero
    [of "[((''2544'', ''2019-20'', ''Regular Season''),
          \<lparr> points = 8, rebounds = 3, assists = 2, steals = 1, blocks = 4 \<rparr>)]"
        "''2544''" "''2019-20''" "[''points'' \<mapsto> 5]"]
  by (simp add: lookup_override_def upsert_override_def REGULAR_SEASON_def
                row_of_deltas_def get0_def)

section \<open>Properties of the Resilient Request Executor\<close>

lemma backoffs_append: "backoffs (xs @ ys) = backoffs xs @ backoffs ys"
  by (induction xs rule: backoffs.induct) auto

text \<open>The loop from attempt \<open>a\<close> on, when the next \<open>k\<close> attempts fail with a transient
  error, none of them is the last attempt, and the one after them returns.\<close>

lemma attempt_loop_transient_then_return:
  assumes "\<forall>i<k. \<exists>e. fn (a + i) = Raised e \<and> should_retry_error e"
    and "fn (a + k) = Returned v"
    and "a + k \<le> M"
  shows "attempt_loop M b d fn u [a..<Suc M] last_err n slept =
           \<lparr> result = Inr v, attempts_made = n + k + 1,
             sleeps = slept
               @ concat (map (\<lambda>t. [Pacing SLEEP_SECONDS,
                                    Backoff (min d (b * 2 ^ (t - 1)))
                                      (min d (b * 2 ^ (t - 1)) * random_uniform (2 / 10) (5 / 10) (u t))])
                             [a..<a + k])
               @ [Pacing SLEEP_SECONDS] \<rparr>"
  using assms
proof (induction k arbitrary: a last_err n slept)
  case 0
  then have "[a..<Suc M] = a # [Suc a..<Suc M]"
    by (simp add: upt_conv_Cons)
  with 0 show ?case by simp
next
  case (Suc k)
  from Suc.prems(3) have lt: "a < M" by simp
  then have unfold: "[a..<Suc M] = a # [Suc a..<Suc M]"
    by (simp add: upt_conv_Cons)
  from Suc.prems(1) obtain e where e: "fn a = Raised e" "should_retry_error e"
    by (metis add.right_neutral zero_less_Suc)
  have later: "\<forall>i<k. \<exists>e. fn (Suc a + i) = Raised e \<and> should_retry_error e"
    using Suc.prems(1) by (metis Suc_less_eq add_Suc_shift)
  have ret: "fn (Suc a + k) = Returned v"
    using Suc.prems(2) by simp
  have bound: "Suc a + k \<le> M"
    using Suc.prems(3) by simp
  have range: "[a..<a + Suc k] = a # [Suc a..<Suc a + k]"
    by (simp add: upt_conv_Cons)
  show ?case
    unfolding unfold range
    using e lt Suc.IH [OF later ret bound] by (simp add: Let_def)
qed

lemma spec_backoff_delay_mono: "a \<le> b \<Longrightarrow> spec_backoff_delay a \<le> spec_backoff_delay b"
proof -
  assume "a \<le> b"
  then have "a - 1 \<le> b - 1" by simp
  then have "(2::real) ^ (a - 1) \<le> 2 ^ (b - 1)"
    by (intro power_increasing) simp_all
  then have "8 / 10 * (2::real) ^ (a - 1) \<le> 8 / 10 * 2 ^ (b - 1)"
    by simp
  then show ?thesis
    unfolding spec_backoff_delay_def by (rule min.mono [OF order_refl])
qed

lemma sorted_spec_delays: "sorted (map spec_backoff_delay [a..<b])"
proof -
  have "sorted_wrt (\<le>) [a..<b]"
    using sorted_upt by simp
  then have "sorted_wrt (\<lambda>x y. spec_backoff_delay x \<le> spec_backoff_delay y) [a..<b]"
    by (rule sorted_wrt_mono_rel [rotated]) (simp add: spec_backoff_delay_mono)
  then show ?thesis by (simp add: sorted_map)
qed

lemma spec_backoff_delay_pos: "0 < spec_backoff_delay a"
  by (simp add: spec_backoff_delay_def)

lemma backoffs_retries:
  "backoffs (concat (map (\<lambda>t. [Pacing p, Backoff (f t) (g t)]) ts) @ [Pacing p])
     = map (\<lambda>t. (f t, g t)) ts"
  by (induction ts) auto

lemma random_random_range: "0 \<le> random_random bits \<and> random_random bits < 1"
proof -
  have "bits mod 2 ^ 53 < (2::nat) ^ 53"
    by simp
  then have "real (bits mod 2 ^ 53) < real ((2::nat) ^ 53)"
    by (simp only: of_nat_less_iff)
  then show ?thesis
    by (simp add: random_random_def)
qed

lemma random_uniform_range:
  "2 / 10 \<le> random_uniform (2 / 10) (5 / 10) bits \<and> random_uniform (2 / 10) (5 / 10) bits < 5 / 10"
  using random_random_range [of bits] by (simp add: random_uniform_def)

text \<open>
  C6. An operation that fails with a transient-signature error in its first \<open>k\<close> attempts,
  \<open>k < 5\<close>, and returns \<open>v\<close> in the next one: the executor returns \<open>v\<close>, having made
  \<open>k + 1\<close> attempts, that is \<open>k\<close> retries, one backoff sleep before each retry. The delay
  computed after failed attempt \<open>a\<close> is min(8, 0.8 * 2^(a-1)); the delays are
  non-decreasing along the run; and the jitter added to a delay is the delay times
  \<^verbatim>\<open>random.uniform(0.2, 0.5)\<close>, which lies between 20% and 50% of it whatever the random
  bits are.
\<close>

theorem C6_transient_failures_then_success:
  assumes "k < 5"
    and "\<forall>a. 1 \<le> a \<and> a \<le> k \<longrightarrow> (\<exists>e. fn a = Raised e \<and> should_retry_error e)"
    and "fn (k + 1) = Returned v"
  shows "result (request_with_retries fn random_bits) = Inr v
       \<and> attempts_made (request_with_retries fn random_bits) = k + 1
       \<and> length (backoffs (sleeps (request_with_retries fn random_bits))) = k
       \<and> backoffs (sleeps (request_with_retries fn random_bits))
           = map (\<lambda>a. (spec_backoff_delay a,
                       spec_backoff_delay a * random_uniform (2 / 10) (5 / 10) (random_bits a)))
                 [1..<k + 1]
       \<and> sorted (map fst (backoffs (sleeps (request_with_retries fn random_bits))))
       \<and> (\<forall>(delay, jitter) \<in> set (backoffs (sleeps (request_with_retries fn random_bits))).
             2 / 10 * delay \<le> jitter \<and> jitter \<le> 5 / 10 * delay)"
proof -
  let ?u = "\<lambda>a. random_uniform (2 / 10) (5 / 10) (random_bits a)"
  have fails: "\<forall>i<k. \<exists>e. fn (1 + i) = Raised e \<and> should_retry_error e"
    using assms(2) by simp
  have ret: "fn (1 + k) = Returned v"
    using assms(3) by simp
  have bound: "1 + k \<le> 5"
    using assms(1) by simp
  have run: "request_with_retries fn random_bits =
      \<lparr> result = Inr v, attempts_made = k + 1,
        sleeps = concat (map (\<lambda>t. [Pacing SLEEP_SECONDS,
                     Backoff (spec_backoff_delay t) (spec_backoff_delay t * ?u t)])
                   [1..<1 + k]) @ [Pacing SLEEP_SECONDS] \<rparr>"
    using attempt_loop_transient_then_return
            [OF fails ret bound, where b = "8 / 10" and d = 8 and u = random_bits
               and last_err = None and n = 0 and slept = "[]"]
    by (simp add: request_with_retries_def request_with_retries_kw_def MAX_ATTEMPTS_def
                  BASE_DELAY_def MAX_DELAY_def spec_backoff_delay_def)
  have c1: "result (request_with_retries fn random_bits) = Inr v"
    unfolding run by simp
  have c2: "attempts_made (request_with_retries fn random_bits) = k + 1"
    unfolding run by simp
  have bs: "backoffs (sleeps (request_with_retries fn random_bits))
      = map (\<lambda>a. (spec_backoff_delay a, spec_backoff_delay a * ?u a)) [1..<k + 1]"
    unfolding run by (simp only: executed.simps backoffs_retries add.commute [of 1 k])
  have c3: "length (backoffs (sleeps (request_with_retries fn random_bits))) = k"
    unfolding bs by simp
  have firsts: "map fst (backoffs (sleeps (request_with_retries fn random_bits)))
      = map spec_backoff_delay [1..<k + 1]"
    unfolding bs by (simp only: map_map comp_def fst_conv)
  have c5: "sorted (map fst (backoffs (sleeps (request_with_retries fn random_bits))))"
    unfolding firsts by (rule sorted_spec_delays)
  have c6: "\<forall>(delay, jitter) \<in> set (backoffs (sleeps (request_with_retries fn random_bits))).
             2 / 10 * delay \<le> jitter \<and> jitter \<le> 5 / 10 * delay"
  proof -
    have "2 / 10 * spec_backoff_delay a \<le> spec_backoff_delay a * ?u a
        \<and> spec_backoff_delay a * ?u a \<le> 5 / 10 * spec_backoff_delay a" for a
    proof -
      have "2 / 10 \<le> ?u a" and "?u a \<le> 5 / 10"
        using random_uniform_range [of "random_bits a"] by simp_all
      then show ?thesis
        using spec_backoff_delay_pos [of a]
        by (metis mult.commute mult_le_cancel_left_pos)
    qed
    then show ?thesis unfolding bs by auto
  qed
  from c1 c2 c3 bs c5 c6 show ?thesis
    by (intro conjI)
qed

theorem C6_transient_failures_then_success_witness:
  "(2::nat) < 5
   \<and> should_retry_error ''HTTP 429 Too Many Requests''
   \<and> should_retry_error ''Read timed out.''
   \<and> request_with_retries
       (\<lambda>a. if a = 1 then Raised ''HTTP 429 Too Many Requests''
            else if a = 2 then Raised ''Read timed out.'' else Returned (42::int))
       fixed_uniform
     = \<lparr> result = Inr 42, attempts_made = 3,
         sleeps = [Pacing 1, Backoff (8 / 10) (28 / 100), Pacing 1,
                   Backoff (16 / 10) (56 / 100), Pacing 1] \<rparr>"
proof -
  let ?fn = "\<lambda>a::nat. if a = 1 then Raised ''HTTP 429 Too Many Requests''
            else if a = 2 then Raised ''Read timed out.'' else Returned (42::int)"
  have m1: "should_retry_error ''HTTP 429 Too Many Requests''"
    by (simp add: should_retry_error_def transient_markers_def lower_def lower_char_def)
  have m2: "should_retry_error ''Read timed out.''"
    by (simp add: should_retry_error_def transient_markers_def lower_def lower_char_def)
  have h1: "(2::nat) < 5" by simp
  have h2: "\<forall>a. 1 \<le> a \<and> a \<le> (2::nat) \<longrightarrow> (\<exists>e. ?fn a = Raised e \<and> should_retry_error e)"
    using m1 m2 by auto
  have h3: "?fn (2 + 1) = Returned 42" by simp
  have draw: "random_uniform (1 / 5) (1 / 2) (fixed_uniform a) = 7 / 20" for a
    by (simp add: random_uniform_def random_random_def fixed_uniform_def)
  have run: "request_with_retries ?fn fixed_uniform
     = \<lparr> result = Inr 42, attempts_made = 3,
         sleeps = [Pacing 1, Backoff (8 / 10) (28 / 100), Pacing 1,
                   Backoff (16 / 10) (56 / 100), Pacing 1] \<rparr>"
    using m1 m2
    by (simp add: request_with_retries_def request_with_retries_kw_def MAX_ATTEMPTS_def
                  BASE_DELAY_def MAX_DELAY_def SLEEP_SECONDS_def upt_conv_Cons draw)
  show ?thesis
    using C6_transient_failures_then_success [of 2 ?fn 42 fixed_uniform, OF h1 h2 h3] m1 m2 run
    by simp
qed

text \<open>
  C7. An operation that always fails with an error whose lower-cased description contains
  none of the transient markers: the executor calls it once, sleeps no backoff, and raises
  that error.
\<close>

theorem C7_non_transient_error_not_retried:
  assumes "\<forall>a. fn a = Raised e"
    and "\<forall>m \<in> set transient_markers. \<not> py_in m (lower e)"
  shows "request_with_retries fn uniform
           = \<lparr> result = Inl e, attempts_made = 1, sleeps = [Pacing SLEEP_SECONDS] \<rparr>"
proof -
  have "\<not> should_retry_error e"
    using assms(2) by (simp add: should_retry_error_def list_ex_iff)
  moreover have "fn 1 = Raised e"
    using assms(1) by simp
  ultimately show ?thesis
    by (simp add: request_with_retries_def request_with_retries_kw_def MAX_ATTEMPTS_def
                  upt_conv_Cons)
qed

theorem C7_non_transient_error_not_retried_witness:
  "\<not> should_retry_error ''Invalid PlayerID 404''
   \<and> request_with_retries (\<lambda>a. Raised ''Invalid PlayerID 404'' :: int outcome) fixed_uniform
     = \<lparr> result = Inl ''Invalid PlayerID 404'', attempts_made = 1, sleeps = [Pacing 1] \<rparr>"
proof -
  have h1: "\<forall>a::nat. (Raised ''Invalid PlayerID 404'' :: int outcome) = Raised ''Invalid PlayerID 404''"
    by simp
  have h2: "\<forall>m \<in> set transient_markers. \<not> py_in m (lower ''Invalid PlayerID 404'')"
    by (simp add: transient_markers_def lower_def lower_char_def)
  show ?thesis
    using C7_non_transient_error_not_retried
            [of "\<lambda>a. Raised ''Invalid PlayerID 404'' :: int outcome" "''Invalid PlayerID 404''"
                fixed_uniform, OF h1 h2] h2
    by (simp add: SLEEP_SECONDS_def should_retry_error_def list_ex_iff)
qed

section \<open>Properties of the Season Aligner\<close>

lemma rows_for_season: "row \<in> set (rows_for left right k) \<Longrightarrow> m_season row = k"
  by (auto simp: rows_for_def Let_def split: if_splits)

lemma rows_for_empty_iff:
  "rows_for left right k = [] \<longleftrightarrow> k \<notin> fst ` set left \<and> k \<notin> fst ` set right"
  by (auto simp: rows_for_def Let_def filter_empty_conv)

lemma rows_for_db_absent:
  "row \<in> set (rows_for left right k) \<Longrightarrow> k \<notin> fst ` set right \<Longrightarrow> m_db row = None"
  by (auto simp: rows_for_def Let_def filter_empty_conv split: if_splits)

lemma rows_for_nba_absent:
  assumes "row \<in> set (rows_for left right k)" and "k \<notin> fst ` set left"
  shows "m_nba row = None"
proof -
  from assms(2) have "filter (\<lambda>r. fst r = k) left = []"
    by (force simp: filter_empty_conv)
  with assms(1) show ?thesis
    by (auto simp: rows_for_def Let_def split: if_splits)
qed

lemma rows_for_nba_present:
  "row \<in> set (rows_for left right k) \<Longrightarrow> k \<in> fst ` set left \<Longrightarrow>
   \<exists>vals. (k, vals) \<in> set left \<and> m_nba row = Some vals"
  by (auto simp: rows_for_def Let_def filter_empty_conv split: if_splits)

lemma rows_for_db_present:
  "row \<in> set (rows_for left right k) \<Longrightarrow> k \<in> fst ` set right \<Longrightarrow>
   \<exists>vals. (k, vals) \<in> set right \<and> m_db row = Some vals"
  by (auto simp: rows_for_def Let_def filter_empty_conv split: if_splits)

lemma merge_outer_keys: "set (sort (remdups (map fst left @ map fst right))) = fst ` set left \<union> fst ` set right"
  by simp

lemma in_merge_outer:
  "row \<in> set (merge_outer left right) \<longleftrightarrow>
   (m_season row \<in> fst ` set left \<union> fst ` set right \<and> row \<in> set (rows_for left right (m_season row)))"
proof
  assume "row \<in> set (merge_outer left right)"
  then obtain k where k: "k \<in> fst ` set left \<union> fst ` set right" "row \<in> set (rows_for left right k)"
    by (auto simp: merge_outer_def)
  moreover from k(2) have "m_season row = k" by (rule rows_for_season)
  ultimately show "m_season row \<in> fst ` set left \<union> fst ` set right
      \<and> row \<in> set (rows_for left right (m_season row))"
    by simp
next
  assume "m_season row \<in> fst ` set left \<union> fst ` set right
      \<and> row \<in> set (rows_for left right (m_season row))"
  then show "row \<in> set (merge_outer left right)"
    unfolding merge_outer_def by (simp only: set_concat set_map merge_outer_keys) blast
qed

lemma merge_outer_seasons:
  "m_season ` set (merge_outer left right) = fst ` set left \<union> fst ` set right"
proof (intro equalityI subsetI)
  fix s assume "s \<in> m_season ` set (merge_outer left right)"
  then show "s \<in> fst ` set left \<union> fst ` set right"
    using in_merge_outer by blast
next
  fix s assume s: "s \<in> fst ` set left \<union> fst ` set right"
  then have "rows_for left right s \<noteq> []"
    using rows_for_empty_iff by blast
  then obtain row where row: "row \<in> set (rows_for left right s)"
    by (cases "rows_for left right s") auto
  then have "m_season row = s" by (rule rows_for_season)
  with row s have "row \<in> set (merge_outer left right)"
    by (simp add: in_merge_outer)
  with \<open>m_season row = s\<close> show "s \<in> m_season ` set (merge_outer left right)"
    by blast
qed

lemma merged_row_sides:
  assumes "row \<in> set (merge_outer official local)"
  shows "(m_season row \<notin> fst ` set local \<longrightarrow> (\<forall>(m, dst) \<in> set METRICS. db_value row dst = 0))
       \<and> (m_season row \<notin> fst ` set official \<longrightarrow> (\<forall>(m, dst) \<in> set METRICS. nba_value row m = 0))
       \<and> (m_season row \<in> fst ` set official \<longrightarrow>
            (\<exists>vals. (m_season row, vals) \<in> set official \<and> m_nba row = Some vals))
       \<and> (m_season row \<in> fst ` set local \<longrightarrow>
            (\<exists>vals. (m_season row, vals) \<in> set local \<and> m_db row = Some vals))"
proof -
  from assms have row: "row \<in> set (rows_for official local (m_season row))"
    by (simp add: in_merge_outer)
  have a: "m_season row \<notin> fst ` set local \<Longrightarrow> db_value row dst = 0" for dst
    using rows_for_db_absent [OF row] by (simp add: db_value_def filled_def)
  have b: "m_season row \<notin> fst ` set official \<Longrightarrow> nba_value row m = 0" for m
    using rows_for_nba_absent [OF row] by (simp add: nba_value_def filled_def)
  show ?thesis
  proof (intro conjI impI)
    assume "m_season row \<notin> fst ` set local"
    then show "\<forall>(m, dst) \<in> set METRICS. db_value row dst = 0"
      using a by simp
  next
    assume "m_season row \<notin> fst ` set official"
    then show "\<forall>(m, dst) \<in> set METRICS. nba_value row m = 0"
      using b by simp
  next
    assume "m_season row \<in> fst ` set official"
    then show "\<exists>vals. (m_season row, vals) \<in> set official \<and> m_nba row = Some vals"
      by (rule rows_for_nba_present [OF row])
  next
    assume "m_season row \<in> fst ` set local"
    then show "\<exists>vals. (m_season row, vals) \<in> set local \<and> m_db row = Some vals"
      by (rule rows_for_db_present [OF row])
  qed
qed

text \<open>
  C3. The aligned result holds exactly the seasons that occur in the official or in the
  local series; a row of a season that the local series lacks has every tracked metric of
  the local side valued 0, a row of a season that the official series lacks has every
  tracked metric of the official side valued 0, and a side that has the season contributes
  one of its own rows of that season. The same \<^verbatim>\<open>pd.merge(..., how="outer")\<close> followed
  by \<^verbatim>\<open>fillna(0)\<close> builds the merged view of \<^verbatim>\<open>coverage_scan_single.py\<close>.
\<close>

theorem C3_outer_join_zero_fill:
  "m_season ` set (merge_outer official local) = fst ` set official \<union> fst ` set local
   \<and> (\<forall>row \<in> set (merge_outer official local).
         (m_season row \<notin> fst ` set local \<longrightarrow> (\<forall>(m, dst) \<in> set METRICS. db_value row dst = 0))
       \<and> (m_season row \<notin> fst ` set official \<longrightarrow> (\<forall>(m, dst) \<in> set METRICS. nba_value row m = 0))
       \<and> (m_season row \<in> fst ` set official \<longrightarrow>
            (\<exists>vals. (m_season row, vals) \<in> set official \<and> m_nba row = Some vals))
       \<and> (m_season row \<in> fst ` set local \<longrightarrow>
            (\<exists>vals. (m_season row, vals) \<in> set local \<and> m_db row = Some vals)))"
proof (rule conjI)
  show "m_season ` set (merge_outer official local) = fst ` set official \<union> fst ` set local"
    by (rule merge_outer_seasons)
  show "\<forall>row \<in> set (merge_outer official local).
         (m_season row \<notin> fst ` set local \<longrightarrow> (\<forall>(m, dst) \<in> set METRICS. db_value row dst = 0))
       \<and> (m_season row \<notin> fst ` set official \<longrightarrow> (\<forall>(m, dst) \<in> set METRICS. nba_value row m = 0))
       \<and> (m_season row \<in> fst ` set official \<longrightarrow>
            (\<exists>vals. (m_season row, vals) \<in> set official \<and> m_nba row = Some vals))
       \<and> (m_season row \<in> fst ` set local \<longrightarrow>
            (\<exists>vals. (m_season row, vals) \<in> set local \<and> m_db row = Some vals))"
    by (rule ballI) (rule merged_row_sides)
qed

theorem C3_outer_join_zero_fill_witness:
  "m_season ` set (merge_outer example_official example_local)
     = {''2018-19'', ''2019-20'', ''2020-21''}
   \<and> \<lparr> m_season = ''2018-19'',
        m_nba = Some [(''PTS'', 50), (''REB'', 1), (''AST'', 2), (''STL'', 3), (''BLK'', 4)],
        m_db = None \<rparr> \<in> set (merge_outer example_official example_local)
   \<and> ''2018-19'' \<notin> fst ` set example_local
   \<and> db_value \<lparr> m_season = ''2018-19'',
        m_nba = Some [(''PTS'', 50), (''REB'', 1), (''AST'', 2), (''STL'', 3), (''BLK'', 4)],
        m_db = None \<rparr> ''points'' = 0
   \<and> \<lparr> m_season = ''2020-21'', m_nba = None,
        m_db = Some [(''points'', 3), (''rebounds'', 0), (''assists'', 0), (''steals'', 0),
                     (''blocks'', 0)] \<rparr> \<in> set (merge_outer example_official example_local)
   \<and> ''2020-21'' \<notin> fst ` set example_official
   \<and> nba_value \<lparr> m_season = ''2020-21'', m_nba = None,
        m_db = Some [(''points'', 3), (''rebounds'', 0), (''assists'', 0), (''steals'', 0),
                     (''blocks'', 0)] \<rparr> ''PTS'' = 0"
proof -
  let ?r1 = "\<lparr> m_season = ''2018-19'',
        m_nba = Some [(''PTS'', 50), (''REB'', 1), (''AST'', 2), (''STL'', 3), (''BLK'', 4)],
        m_db = None \<rparr>"
  let ?r2 = "\<lparr> m_season = ''2020-21'', m_nba = None,
        m_db = Some [(''points'', 3), (''rebounds'', 0), (''assists'', 0), (''steals'', 0),
                     (''blocks'', 0)] \<rparr>"
  note outer = C3_outer_join_zero_fill [of example_official example_local]
  have keys: "fst ` set example_official \<union> fst ` set example_local
                = {''2018-19'', ''2019-20'', ''2020-21''}"
    by (auto simp: example_official_def example_local_def)
  have r1: "?r1 \<in> set (merge_outer example_official example_local)"
    by code_simp
  have r2: "?r2 \<in> set (merge_outer example_official example_local)"
    by code_simp
  have a1: "m_season ?r1 \<notin> fst ` set example_local"
    by (simp add: example_local_def)
  have a2: "m_season ?r2 \<notin> fst ` set example_official"
    by (simp add: example_official_def)
  have pts: "(''PTS'', ''points'') \<in> set METRICS"
    by (simp add: METRICS_def)
  from outer r1 a1 pts have z1: "db_value ?r1 ''points'' = 0"
    by fast
  from outer r2 a2 pts have z2: "nba_value ?r2 ''PTS'' = 0"
    by fast
  from outer keys have seasons: "m_season ` set (merge_outer example_official example_local)
     = {''2018-19'', ''2019-20'', ''2020-21''}"
    by simp
  from seasons r1 r2 a1 a2 z1 z2 show ?thesis
    by simp
qed

section \<open>Properties of the Delta Calculator and of the override writes\<close>

lemma process_rows_fold:
  "process_rows conn pid merged n =
     (fold (\<lambda>(s, d) c. upsert_override c pid s d) (upsert_calls merged) conn,
      n + length (upsert_calls merged))"
  by (induction merged arbitrary: conn n) (auto simp: upsert_calls_def)

lemma map_of_fold_upserts:
  "map_of (fold (\<lambda>(s, d) c. upsert_override c pid s d) calls conn)
     = map_of conn ++ map_of (map (\<lambda>(s, d). ((pid, s, REGULAR_SEASON), row_of_deltas d)) (rev calls))"
proof (induction calls arbitrary: conn)
  case Nil
  then show ?case by simp
next
  case (Cons c calls)
  obtain s d where c: "c = (s, d)" by (cases c)
  let ?g = "\<lambda>(s, d). ((pid, s, REGULAR_SEASON), row_of_deltas d)"
  have step: "map_of (upsert_override conn pid s d) = map_of conn ++ map_of [?g c]"
    by (simp add: upsert_override_def update_conv' c)
  have "map_of (fold (\<lambda>(s, d) c. upsert_override c pid s d) (c # calls) conn)
      = map_of (upsert_override conn pid s d) ++ map_of (map ?g (rev calls))"
    using Cons.IH [of "upsert_override conn pid s d"] by (simp add: c)
  also have "\<dots> = map_of conn ++ (map_of [?g c] ++ map_of (map ?g (rev calls)))"
    by (simp only: step map_add_assoc)
  also have "map_of [?g c] ++ map_of (map ?g (rev calls)) = map_of (map ?g (rev (c # calls)))"
    by (simp only: rev.simps map_append map_of_append list.map)
  finally show ?case .
qed

lemma distinct_fold_upserts:
  "distinct (map fst conn) \<Longrightarrow>
   distinct (map fst (fold (\<lambda>(s, d) c. upsert_override c pid s d) calls conn))"
  by (induction calls arbitrary: conn) (auto simp: distinct_upsert)

text \<open>The sum of a column over a table with distinct keys, as a sum over its keys.\<close>
lemma override_total_as_sum:
  assumes "distinct (map fst tbl)"
  shows "override_total col tbl pid
     = (\<Sum>k \<in> {k \<in> dom (map_of tbl). fst k = pid \<and> snd (snd k) = REGULAR_SEASON}.
          col (the (map_of tbl k)))"
  using assms
proof (induction tbl)
  case Nil
  then show ?case by (simp add: override_total_def)
next
  case (Cons kr tbl)
  obtain k r where kr: "kr = (k, r)" by (cases kr)
  from Cons.prems kr have notin: "k \<notin> dom (map_of tbl)" and dist: "distinct (map fst tbl)"
    by (auto simp: dom_map_of_conv_image_fst)
  let ?P = "\<lambda>k. fst k = pid \<and> snd (snd k) = REGULAR_SEASON"
  let ?K = "{k \<in> dom (map_of tbl). ?P k}"
  have fin: "finite ?K" by (simp add: finite_dom_map_of)
  have same: "(\<Sum>k' \<in> ?K. col (the (map_of (kr # tbl) k'))) = (\<Sum>k' \<in> ?K. col (the (map_of tbl k')))"
    using notin by (intro sum.cong) (auto simp: kr)
  have head: "col (the (map_of (kr # tbl) k)) = col r"
    by (simp add: kr)
  show ?case
  proof (cases "?P k")
    case True
    have set_eq: "{k' \<in> dom (map_of (kr # tbl)). ?P k'} = insert k ?K"
      using True by (auto simp: kr)
    have "k \<notin> ?K" using notin by simp
    with fin have "(\<Sum>k' \<in> insert k ?K. col (the (map_of (kr # tbl) k')))
        = col (the (map_of (kr # tbl) k)) + (\<Sum>k' \<in> ?K. col (the (map_of (kr # tbl) k')))"
      by (rule sum.insert)
    then have "(\<Sum>k' \<in> insert k ?K. col (the (map_of (kr # tbl) k')))
        = col r + (\<Sum>k' \<in> ?K. col (the (map_of tbl k')))"
      by (simp only: head same)
    moreover have "override_total col (kr # tbl) pid = col r + override_total col tbl pid"
      using True by (simp add: override_total_def kr)
    ultimately show ?thesis
      using Cons.IH [OF dist] by (simp only: set_eq)
  next
    case False
    have set_eq: "{k' \<in> dom (map_of (kr # tbl)). ?P k'} = ?K"
      using False by (auto simp: kr)
    have "override_total col (kr # tbl) pid = override_total col tbl pid"
      using False by (auto simp: override_total_def kr)
    then show ?thesis
      using Cons.IH [OF dist] same by (simp only: set_eq)
  qed
qed

lemma upsert_keys:
  "map fst (map (\<lambda>(s, d). ((pid, s, REGULAR_SEASON), row_of_deltas d)) xs)
     = map (\<lambda>s. (pid, s, REGULAR_SEASON)) (map fst xs)"
  by (induction xs) auto

lemma lookup_after_calls:
  assumes "distinct (map fst calls)" and "(s, d) \<in> set calls"
  shows "lookup_override (fold (\<lambda>(s, d) c. upsert_override c pid s d) calls conn)
           (pid, s, REGULAR_SEASON) = Some (row_of_deltas d)"
proof -
  let ?g = "\<lambda>(s, d). ((pid, s, REGULAR_SEASON), row_of_deltas d)"
  have "distinct (map fst (rev calls))"
    using assms(1) by (simp add: rev_map [symmetric])
  then have "distinct (map (\<lambda>s. (pid, s, REGULAR_SEASON)) (map fst (rev calls)))"
    by (simp add: distinct_map inj_on_def)
  then have "distinct (map fst (map ?g (rev calls)))"
    by (simp only: upsert_keys)
  moreover have "((pid, s, REGULAR_SEASON), row_of_deltas d) \<in> set (map ?g (rev calls))"
  proof -
    from assms(2) have "?g (s, d) \<in> ?g ` set (rev calls)"
      by (intro imageI) simp
    then show ?thesis by simp
  qed
  ultimately have "map_of (map ?g (rev calls)) (pid, s, REGULAR_SEASON) = Some (row_of_deltas d)"
    by (rule map_of_is_SomeI)
  then show ?thesis
    by (simp add: lookup_override_def map_of_fold_upserts)
qed

lemma dom_after_calls:
  "dom (map_of (fold (\<lambda>(s, d) c. upsert_override c pid s d) calls conn))
     = fst ` set conn \<union> (\<lambda>s. (pid, s, REGULAR_SEASON)) ` fst ` set calls"
proof -
  have "fst ` set (map (\<lambda>(s, d). ((pid, s, REGULAR_SEASON), row_of_deltas d)) (rev calls))
      = (\<lambda>s. (pid, s, REGULAR_SEASON)) ` fst ` set calls"
  proof -
    have "fst ` set (map (\<lambda>(s, d). ((pid, s, REGULAR_SEASON), row_of_deltas d)) (rev calls))
        = set (map fst (map (\<lambda>(s, d). ((pid, s, REGULAR_SEASON), row_of_deltas d)) (rev calls)))"
      by (simp only: set_map)
    also have "\<dots> = set (map (\<lambda>s. (pid, s, REGULAR_SEASON)) (map fst (rev calls)))"
      by (simp only: upsert_keys)
    also have "\<dots> = (\<lambda>s. (pid, s, REGULAR_SEASON)) ` fst ` set calls"
      by (simp only: set_map set_rev)
    finally show ?thesis .
  qed
  then show ?thesis
    by (simp only: map_of_fold_upserts dom_map_add dom_map_of_conv_image_fst Un_commute)
qed

lemma lookup_not_called:
  assumes "s \<notin> fst ` set calls"
  shows "lookup_override (fold (\<lambda>(s, d) c. upsert_override c pid s d) calls conn)
           (pid, s, REGULAR_SEASON) = lookup_override conn (pid, s, REGULAR_SEASON)"
proof -
  have "(pid, s, REGULAR_SEASON) \<notin> (\<lambda>s. (pid, s, REGULAR_SEASON)) ` fst ` set calls"
    using assms by auto
  then have "(pid, s, REGULAR_SEASON)
      \<notin> dom (map_of (map (\<lambda>(s, d). ((pid, s, REGULAR_SEASON), row_of_deltas d)) (rev calls)))"
    using upsert_keys [of pid "rev calls"]
    by (simp only: dom_map_of_conv_image_fst set_map [symmetric] set_rev) simp
  then show ?thesis
    by (simp add: lookup_override_def map_of_fold_upserts map_add_dom_app_simps)
qed

lemma upsert_calls_seasons:
  "fst ` set (upsert_calls merged)
     = {s. s \<noteq> [] \<and> (\<exists>row \<in> set merged. m_season row = s \<and> row_nonzero row)}"
  by (force simp: upsert_calls_def)

lemma process_player_rows:
  assumes "nba_career_by_season to_numeric (remote pid) uniform = Inr nba_df"
  shows "process_player to_numeric remote uniform games conn pid =
     Inr (fold (\<lambda>(s, d) c. upsert_override c pid s d)
            (upsert_calls (merge_outer (metric_columns nba_df) (db_career_by_season games pid))) conn,
          length (upsert_calls (merge_outer (metric_columns nba_df) (db_career_by_season games pid))))"
  by (simp add: process_player_def assms process_rows_fold)

lemma row_nonzero_iff:
  "row_nonzero row \<longleftrightarrow> (\<exists>(m, dst) \<in> set METRICS. nba_value row m \<noteq> db_value row dst)"
  by (simp add: row_nonzero_def list_ex_iff case_prod_unfold)

lemma delta_column:
  assumes "(m, dst) \<in> set METRICS" and "override_col dst = Some oc"
  shows "oc (row_of_deltas (row_deltas row)) = nba_value row m - db_value row dst"
  using assms
  by (auto simp: METRICS_def override_col_def row_of_deltas_def row_deltas_def get0_def)

lemma metric_has_columns:
  assumes "(m, dst) \<in> set METRICS"
  shows "\<exists>gc oc. game_col dst = Some gc \<and> override_col dst = Some oc"
  using assms by (auto simp: METRICS_def game_col_def override_col_def)

text \<open>
  C2, as the claim states it, fails: the official series has one season whose key is the
  empty string, with 5 points against no local game. The aligned row has a non-zero delta,
  yet the loop skips it (\<^verbatim>\<open>if not season: continue\<close>) and nothing is written.
\<close>

theorem C2_counterexample:
  "merge_outer
      (metric_columns [('''', [(''GP'', 1), (''PTS'', 5), (''REB'', 0), (''AST'', 0),
                               (''STL'', 0), (''BLK'', 0)])])
      (db_career_by_season [] ''7'')
     = [\<lparr> m_season = '''',
          m_nba = Some [(''PTS'', 5), (''REB'', 0), (''AST'', 0), (''STL'', 0), (''BLK'', 0)],
          m_db = None \<rparr>]
   \<and> row_nonzero \<lparr> m_season = '''',
          m_nba = Some [(''PTS'', 5), (''REB'', 0), (''AST'', 0), (''STL'', 0), (''BLK'', 0)],
          m_db = None \<rparr>
   \<and> nba_career_by_season example_to_numeric (always_returns [example_frame '''' 5] ''7'') fixed_uniform
       = Inr [('''', [(''GP'', 1), (''PTS'', 5), (''REB'', 0), (''AST'', 0),
                      (''STL'', 0), (''BLK'', 0)])]
   \<and> process_player example_to_numeric (always_returns [example_frame '''' 5]) fixed_uniform [] [] ''7''
       = Inr ([], 0)"
  by code_simp

text \<open>
  C2, amended. The run of \<^verbatim>\<open>process_player\<close> writes exactly the calls of
  \<^const>\<open>upsert_calls\<close>, in order, and counts them. A season all of whose aligned rows
  have every delta zero is not written, and the store keeps for its key what it held
  before; an aligned row with a non-empty season key and at least one non-zero delta is
  upserted, so its key is in the store afterwards; a row whose season key is the empty
  string is never written.
\<close>

theorem C2_zero_delta_dropped_amended:
  assumes "nba_career_by_season to_numeric (remote pid) uniform = Inr nba_df"
    and "merged = merge_outer (metric_columns nba_df) (db_career_by_season games pid)"
  shows "\<exists>conn' updated.
      process_player to_numeric remote uniform games conn pid = Inr (conn', updated)
      \<and> conn' = fold (\<lambda>(s, d) c. upsert_override c pid s d) (upsert_calls merged) conn
      \<and> updated = length (upsert_calls merged)
      \<and> (\<forall>s. (\<forall>row \<in> set merged. m_season row = s \<longrightarrow> \<not> row_nonzero row) \<longrightarrow>
             s \<notin> fst ` set (upsert_calls merged)
           \<and> lookup_override conn' (pid, s, REGULAR_SEASON)
               = lookup_override conn (pid, s, REGULAR_SEASON))
      \<and> (\<forall>row \<in> set merged. m_season row \<noteq> [] \<and> row_nonzero row \<longrightarrow>
             (m_season row, row_deltas row) \<in> set (upsert_calls merged)
           \<and> lookup_override conn' (pid, m_season row, REGULAR_SEASON) \<noteq> None)
      \<and> [] \<notin> fst ` set (upsert_calls merged)"
proof -
  let ?calls = "upsert_calls merged"
  let ?conn' = "fold (\<lambda>(s, d) c. upsert_override c pid s d) ?calls conn"
  have run: "process_player to_numeric remote uniform games conn pid = Inr (?conn', length ?calls)"
    unfolding assms(2) using assms(1) by (rule process_player_rows)
  have zero: "s \<notin> fst ` set ?calls
           \<and> lookup_override ?conn' (pid, s, REGULAR_SEASON)
               = lookup_override conn (pid, s, REGULAR_SEASON)"
    if "\<forall>row \<in> set merged. m_season row = s \<longrightarrow> \<not> row_nonzero row" for s
  proof -
    from that have "s \<notin> fst ` set ?calls"
      by (auto simp: upsert_calls_seasons)
    then show ?thesis
      by (simp add: lookup_not_called)
  qed
  have nonzero: "(m_season row, row_deltas row) \<in> set ?calls
           \<and> lookup_override ?conn' (pid, m_season row, REGULAR_SEASON) \<noteq> None"
    if "row \<in> set merged" "m_season row \<noteq> [] \<and> row_nonzero row" for row
  proof -
    from that have mem: "(m_season row, row_deltas row) \<in> set ?calls"
      by (simp add: upsert_calls_def)
    then have "(pid, m_season row, REGULAR_SEASON) \<in> dom (map_of ?conn')"
      unfolding dom_after_calls by (intro UnI2 imageI) (rule image_eqI [where x = "(m_season row, row_deltas row)"], simp_all)
    then show ?thesis
      using mem by (auto simp: lookup_override_def)
  qed
  have empty: "[] \<notin> fst ` set ?calls"
    by (simp add: upsert_calls_seasons)
  show ?thesis
    using run zero nonzero empty by blast
qed

theorem C2_zero_delta_dropped_amended_witness:
  "nba_career_by_season example_to_numeric (always_returns example_frames_two ''7'') fixed_uniform
     = Inr [(''2018-19'', [(''GP'', 1), (''PTS'', 50), (''REB'', 0), (''AST'', 0), (''STL'', 0), (''BLK'', 0)]),
            (''2019-20'', [(''GP'', 1), (''PTS'', 100), (''REB'', 0), (''AST'', 0), (''STL'', 0), (''BLK'', 0)])]
   \<and> merge_outer
       (metric_columns
          [(''2018-19'', [(''GP'', 1), (''PTS'', 50), (''REB'', 0), (''AST'', 0), (''STL'', 0), (''BLK'', 0)]),
           (''2019-20'', [(''GP'', 1), (''PTS'', 100), (''REB'', 0), (''AST'', 0), (''STL'', 0), (''BLK'', 0)])])
       (db_career_by_season [example_game ''7'' ''2019-20'' 100] ''7'')
     = [\<lparr> m_season = ''2018-19'',
          m_nba = Some [(''PTS'', 50), (''REB'', 0), (''AST'', 0), (''STL'', 0), (''BLK'', 0)],
          m_db = None \<rparr>,
        \<lparr> m_season = ''2019-20'',
          m_nba = Some [(''PTS'', 100), (''REB'', 0), (''AST'', 0), (''STL'', 0), (''BLK'', 0)],
          m_db = Some [(''points'', 100), (''rebounds'', 0), (''assists'', 0), (''steals'', 0),
                       (''blocks'', 0)] \<rparr>]
   \<and> row_nonzero \<lparr> m_season = ''2018-19'',
          m_nba = Some [(''PTS'', 50), (''REB'', 0), (''AST'', 0), (''STL'', 0), (''BLK'', 0)],
          m_db = None \<rparr>
   \<and> \<not> row_nonzero \<lparr> m_season = ''2019-20'',
          m_nba = Some [(''PTS'', 100), (''REB'', 0), (''AST'', 0), (''STL'', 0), (''BLK'', 0)],
          m_db = Some [(''points'', 100), (''rebounds'', 0), (''assists'', 0), (''steals'', 0),
                       (''blocks'', 0)] \<rparr>
   \<and> process_player example_to_numeric (always_returns example_frames_two) fixed_uniform
        [example_game ''7'' ''2019-20'' 100] [] ''7''
     = Inr ([((''7'', ''2018-19'', ''Regular Season''),
              \<lparr> points = 50, rebounds = 0, assists = 0, steals = 0, blocks = 0 \<rparr>)], 1)
   \<and> lookup_override
        [((''7'', ''2018-19'', ''Regular Season''),
              \<lparr> points = 50, rebounds = 0, assists = 0, steals = 0, blocks = 0 \<rparr>)]
        (''7'', ''2019-20'', REGULAR_SEASON) = None"
proof -
  let ?nba_df = "[(''2018-19'', [(''GP'', 1), (''PTS'', 50), (''REB'', 0), (''AST'', 0), (''STL'', 0), (''BLK'', 0)]),
           (''2019-20'', [(''GP'', 1), (''PTS'', 100), (''REB'', 0), (''AST'', 0), (''STL'', 0), (''BLK'', 0)])]
           :: season_row list"
  let ?games = "[example_game ''7'' ''2019-20'' 100]"
  let ?r1 = "\<lparr> m_season = ''2018-19'',
          m_nba = Some [(''PTS'', 50), (''REB'', 0), (''AST'', 0), (''STL'', 0), (''BLK'', 0)],
          m_db = None \<rparr>"
  let ?r2 = "\<lparr> m_season = ''2019-20'',
          m_nba = Some [(''PTS'', 100), (''REB'', 0), (''AST'', 0), (''STL'', 0), (''BLK'', 0)],
          m_db = Some [(''points'', 100), (''rebounds'', 0), (''assists'', 0), (''steals'', 0),
                       (''blocks'', 0)] \<rparr>"
  let ?after = "[((''7'', ''2018-19'', ''Regular Season''),
              \<lparr> points = 50, rebounds = 0, assists = 0, steals = 0, blocks = 0 \<rparr>)]"
  have fetch: "nba_career_by_season example_to_numeric (always_returns example_frames_two ''7'') fixed_uniform = Inr ?nba_df"
    by code_simp
  have merged: "merge_outer (metric_columns ?nba_df) (db_career_by_season ?games ''7'') = [?r1, ?r2]"
    by code_simp
  have nz: "row_nonzero ?r1" by code_simp
  have z: "\<not> row_nonzero ?r2" by code_simp
  have run: "process_player example_to_numeric (always_returns example_frames_two) fixed_uniform ?games [] ''7''
      = Inr (?after, 1)"
    by code_simp
  from C2_zero_delta_dropped_amended
         [where to_numeric = example_to_numeric and remote = "always_returns example_frames_two" and pid = "''7''"
            and games = ?games and conn = "[]", OF fetch merged [symmetric]] run
  have zero_season:
    "(\<forall>row \<in> set [?r1, ?r2]. m_season row = ''2019-20'' \<longrightarrow> \<not> row_nonzero row) \<longrightarrow>
       lookup_override ?after (''7'', ''2019-20'', REGULAR_SEASON)
         = lookup_override [] (''7'', ''2019-20'', REGULAR_SEASON)"
    by fastforce
  with z have "lookup_override ?after (''7'', ''2019-20'', REGULAR_SEASON) = None"
    by (simp add: lookup_override_def)
  with fetch merged nz z run show ?thesis
    by simp
qed

section \<open>Round trip: raw totals plus overrides against the official totals\<close>

lemma filter_key_distinct:
  "distinct (map fst xs) \<Longrightarrow>
   filter (\<lambda>r. fst r = k) xs = (case map_of xs k of None \<Rightarrow> [] | Some v \<Rightarrow> [(k, v)])"
proof (induction xs)
  case Nil
  then show ?case by simp
next
  case (Cons x xs)
  obtain a b where x: "x = (a, b)" by (cases x)
  show ?case
  proof (cases "a = k")
    case True
    with Cons.prems x have "k \<notin> fst ` set xs" by auto
    then have "filter (\<lambda>r. fst r = k) xs = []"
      by (force simp: filter_empty_conv)
    with True x show ?thesis by simp
  next
    case False
    with Cons x show ?thesis by simp
  qed
qed

lemma rows_for_distinct:
  assumes "distinct (map fst left)" and "distinct (map fst right)"
    and "k \<in> fst ` set left \<union> fst ` set right"
  shows "rows_for left right k = [\<lparr> m_season = k, m_nba = map_of left k, m_db = map_of right k \<rparr>]"
proof -
  have l: "filter (\<lambda>r. fst r = k) left = (case map_of left k of None \<Rightarrow> [] | Some v \<Rightarrow> [(k, v)])"
    using assms(1) by (rule filter_key_distinct)
  have r: "filter (\<lambda>r. fst r = k) right = (case map_of right k of None \<Rightarrow> [] | Some v \<Rightarrow> [(k, v)])"
    using assms(2) by (rule filter_key_distinct)
  from assms(3) have "map_of left k \<noteq> None \<or> map_of right k \<noteq> None"
    by (simp add: map_of_eq_None_iff)
  then show ?thesis
    unfolding rows_for_def l r by (auto simp: Let_def split: option.splits)
qed

lemma merge_outer_distinct:
  assumes "distinct (map fst left)" and "distinct (map fst right)"
  shows "merge_outer left right =
           map (\<lambda>k. \<lparr> m_season = k, m_nba = map_of left k, m_db = map_of right k \<rparr>)
               (sort (remdups (map fst left @ map fst right)))"
proof -
  let ?ks = "sort (remdups (map fst left @ map fst right))"
  have eq: "map (rows_for left right) ?ks
      = map (\<lambda>k. [\<lparr> m_season = k, m_nba = map_of left k, m_db = map_of right k \<rparr>]) ?ks"
    by (rule map_cong [OF refl]) (simp add: rows_for_distinct [OF assms])
  show ?thesis
    unfolding merge_outer_def eq by (rule concat_map_singleton)
qed

lemma merge_outer_distinct_seasons:
  assumes "distinct (map fst left)" and "distinct (map fst right)"
  shows "distinct (map m_season (merge_outer left right))"
  unfolding merge_outer_distinct [OF assms] by (simp add: comp_def)

lemma sum_over_keys:
  assumes "distinct (map fst xs)" and "distinct ks" and "fst ` set xs \<subseteq> set ks"
  shows "sum_list (map (\<lambda>k. filled (map_of xs k) c) ks)
       = sum_list (map (\<lambda>(s, vals). filled (Some vals) c) xs)"
proof -
  have "sum_list (map (\<lambda>k. filled (map_of xs k) c) ks) = (\<Sum>k \<in> set ks. filled (map_of xs k) c)"
    using assms(2) by (rule sum_list_distinct_conv_sum_set)
  also have "\<dots> = (\<Sum>k \<in> set (map fst xs). filled (map_of xs k) c)"
  proof (rule sum.mono_neutral_right)
    show "finite (set ks)" by simp
    show "set (map fst xs) \<subseteq> set ks" using assms(3) by simp
    show "\<forall>k \<in> set ks - set (map fst xs). filled (map_of xs k) c = 0"
      by (auto simp: filled_def map_of_eq_None_iff [THEN iffD2])
  qed
  also have "\<dots> = sum_list (map (\<lambda>k. filled (map_of xs k) c) (map fst xs))"
    using assms(1) by (rule sum_list_distinct_conv_sum_set [symmetric])
  also have "\<dots> = sum_list (map (\<lambda>(s, vals). filled (Some vals) c) xs)"
    unfolding map_map
    by (rule arg_cong [where f = sum_list], rule map_cong [OF refl])
       (auto simp: map_of_is_SomeI [OF assms(1)])
  finally show ?thesis .
qed

lemma merged_nba_sum:
  assumes "distinct (map fst left)" and "distinct (map fst right)"
  shows "sum_list (map (\<lambda>row. nba_value row m) (merge_outer left right)) = column_sum left m"
  unfolding merge_outer_distinct [OF assms] column_sum_def
  using sum_over_keys [OF assms(1), of "sort (remdups (map fst left @ map fst right))" m]
  by (simp add: comp_def nba_value_def)

lemma merged_db_sum:
  assumes "distinct (map fst left)" and "distinct (map fst right)"
  shows "sum_list (map (\<lambda>row. db_value row dst) (merge_outer left right)) = column_sum right dst"
  unfolding merge_outer_distinct [OF assms] column_sum_def
  using sum_over_keys [OF assms(2), of "sort (remdups (map fst left @ map fst right))" dst]
  by (simp add: comp_def db_value_def)

lemma sum_list_absent_key:
  "a \<notin> set ks \<Longrightarrow> sum_list (map (\<lambda>s. if a = s then (c::int) else 0) ks) = 0"
  by (induction ks) auto

lemma sum_list_single_key:
  "distinct ks \<Longrightarrow> a \<in> set ks \<Longrightarrow> sum_list (map (\<lambda>s. if a = s then (c::int) else 0) ks) = c"
  by (induction ks) (auto simp: sum_list_absent_key)

lemma sum_by_group:
  assumes "distinct ks"
  shows "key ` set gs \<subseteq> set ks \<Longrightarrow>
         sum_list (map (\<lambda>s. sum_list (map f (filter (\<lambda>g. key g = s) gs))) ks)
           = (sum_list (map f gs) :: int)"
proof (induction gs)
  case Nil
  then show ?case by simp
next
  case (Cons g gs)
  have "sum_list (map (\<lambda>s. sum_list (map f (filter (\<lambda>g. key g = s) (g # gs)))) ks)
      = sum_list (map (\<lambda>s. (if key g = s then f g else 0)
                           + sum_list (map f (filter (\<lambda>g. key g = s) gs))) ks)"
    by (rule arg_cong [where f = sum_list], rule map_cong [OF refl]) simp
  also have "\<dots> = sum_list (map (\<lambda>s. if key g = s then f g else 0) ks)
                 + sum_list (map (\<lambda>s. sum_list (map f (filter (\<lambda>g. key g = s) gs))) ks)"
    by (rule sum_list_addf)
  also have "sum_list (map (\<lambda>s. if key g = s then f g else 0) ks) = f g"
    using assms Cons.prems by (intro sum_list_single_key) auto
  also have "sum_list (map (\<lambda>s. sum_list (map f (filter (\<lambda>g. key g = s) gs))) ks) = sum_list (map f gs)"
    using Cons by simp
  finally show ?case by simp
qed

lemma db_career_distinct: "distinct (map fst (db_career_by_season games pid))"
  by (simp add: db_career_by_season_def Let_def comp_def)

lemma db_career_seasons:
  "fst ` set (db_career_by_season games pid) = g_season ` set (regular_games games pid)"
  by (force simp: db_career_by_season_def Let_def)

lemma db_career_column_sum:
  assumes "game_col dst = Some gc"
  shows "column_sum (db_career_by_season games pid) dst = sum_col gc (regular_games games pid)"
proof -
  let ?gs = "regular_games games pid"
  let ?f = "\<lambda>g. case gc g of None \<Rightarrow> 0 | Some v \<Rightarrow> v"
  from assms have cases: "(dst, gc) \<in> {(''points'', g_points), (''rebounds'', g_rebounds),
       (''assists'', g_assists), (''steals'', g_steals), (''blocks'', g_blocks)}"
    by (auto simp: game_col_def split: if_splits)
  have "column_sum (db_career_by_season games pid) dst
      = sum_list (map (\<lambda>s. sum_list (map ?f (filter (\<lambda>g. g_season g = s) ?gs)))
                      (remdups (map g_season ?gs)))"
    using cases
    by (auto simp: column_sum_def db_career_by_season_def Let_def comp_def filled_def sum_col_def)
  also have "\<dots> = sum_list (map ?f ?gs)"
    by (rule sum_by_group) auto
  finally show ?thesis by (simp add: sum_col_def)
qed

lemma metric_columns_keys: "map fst (metric_columns df) = map fst df"
  by (induction df) (auto simp: metric_columns_def)

lemma map_of_filter_key:
  "map_of (filter (\<lambda>(c, v). P c) xs) k = (if P k then map_of xs k else None)"
  by (induction xs) auto

lemma metric_columns_sum:
  assumes "(m, dst) \<in> set METRICS"
  shows "column_sum (metric_columns df) m = column_sum df m"
proof -
  have "filled (Some (filter (\<lambda>(c, v). c \<in> set (map fst METRICS)) vals)) m = filled (Some vals) m" for vals
    using assms by (simp add: filled_def map_of_filter_key) force
  then show ?thesis
    by (simp add: column_sum_def metric_columns_def comp_def case_prod_unfold)
qed

lemma override_total_after_calls:
  assumes pk: "distinct (map fst conn)"
    and calls: "distinct (map fst calls)"
    and no_stale: "\<forall>k \<in> fst ` set conn. fst k = pid \<and> snd (snd k) = REGULAR_SEASON
                      \<longrightarrow> fst (snd k) \<in> fst ` set calls"
  shows "override_total oc (fold (\<lambda>(s, d) c. upsert_override c pid s d) calls conn) pid
           = sum_list (map (\<lambda>(s, d). oc (row_of_deltas d)) calls)"
proof -
  let ?conn' = "fold (\<lambda>(s, d) c. upsert_override c pid s d) calls conn"
  let ?key = "\<lambda>s. (pid, s, REGULAR_SEASON)"
  let ?h = "\<lambda>s. oc (the (map_of ?conn' (?key s)))"
  have keys: "{k \<in> dom (map_of ?conn'). fst k = pid \<and> snd (snd k) = REGULAR_SEASON}
                = ?key ` set (map fst calls)"
  proof (intro equalityI subsetI)
    fix k assume "k \<in> {k \<in> dom (map_of ?conn'). fst k = pid \<and> snd (snd k) = REGULAR_SEASON}"
    then have k: "k \<in> fst ` set conn \<union> ?key ` fst ` set calls"
        and sel: "fst k = pid \<and> snd (snd k) = REGULAR_SEASON"
      by (simp_all add: dom_after_calls)
    show "k \<in> ?key ` set (map fst calls)"
    proof (cases "k \<in> fst ` set conn")
      case True
      with no_stale sel have "fst (snd k) \<in> fst ` set calls" by blast
      moreover from sel have "k = ?key (fst (snd k))"
        by (cases k) auto
      ultimately show ?thesis by (simp only: set_map) (rule image_eqI)
    next
      case False
      with k show ?thesis by simp
    qed
  next
    fix k assume "k \<in> ?key ` set (map fst calls)"
    then obtain s where "s \<in> fst ` set calls" "k = ?key s"
      by (auto simp only: set_map)
    then show "k \<in> {k \<in> dom (map_of ?conn'). fst k = pid \<and> snd (snd k) = REGULAR_SEASON}"
      by (simp add: dom_after_calls)
  qed
  have "override_total oc ?conn' pid
      = (\<Sum>k \<in> ?key ` set (map fst calls). oc (the (map_of ?conn' k)))"
    using override_total_as_sum [OF distinct_fold_upserts [OF pk], of oc pid calls pid]
    by (simp only: keys)
  also have "\<dots> = (\<Sum>s \<in> set (map fst calls). ?h s)"
  proof -
    have "inj_on ?key (set (map fst calls))" by (simp add: inj_on_def)
    then show ?thesis by (simp only: sum.reindex comp_def)
  qed
  also have "\<dots> = sum_list (map ?h (map fst calls))"
    using calls by (rule sum_list_distinct_conv_sum_set [symmetric])
  also have "\<dots> = sum_list (map (\<lambda>(s, d). oc (row_of_deltas d)) calls)"
  proof -
    have "?h (fst c) = (case c of (s, d) \<Rightarrow> oc (row_of_deltas d))" if "c \<in> set calls" for c
    proof -
      obtain s d where c: "c = (s, d)" by (cases c)
      with that have "lookup_override ?conn' (?key s) = Some (row_of_deltas d)"
        using lookup_after_calls [OF calls] by simp
      then show ?thesis by (simp add: c lookup_override_def)
    qed
    then show ?thesis
      unfolding map_map by (intro arg_cong [where f = sum_list] map_cong) simp_all
  qed
  finally show ?thesis .
qed

text \<open>
  C1, as the claim states it, fails: the store holds an override of 8 points for season
  2019-20 from an earlier run, and the local game log has caught up since (100 points
  locally, 100 officially). Every delta of the season is zero, so the run writes nothing;
  the old row stays, it is not official minus local, and the corrected total is
  100 + 8 = 108 against the official 100.
\<close>

theorem C1_counterexample:
  "process_player example_to_numeric (always_returns [example_frame ''2019-20'' 100]) fixed_uniform
      [example_game ''7'' ''2019-20'' 100]
      [((''7'', ''2019-20'', ''Regular Season''),
        \<lparr> points = 8, rebounds = 0, assists = 0, steals = 0, blocks = 0 \<rparr>)] ''7''
     = Inr ([((''7'', ''2019-20'', ''Regular Season''),
              \<lparr> points = 8, rebounds = 0, assists = 0, steals = 0, blocks = 0 \<rparr>)], 0)
   \<and> nba_career_by_season example_to_numeric (always_returns [example_frame ''2019-20'' 100] ''7'') fixed_uniform
       = Inr [(''2019-20'', [(''GP'', 1), (''PTS'', 100), (''REB'', 0), (''AST'', 0),
                             (''STL'', 0), (''BLK'', 0)])]
   \<and> get_db_total [example_game ''7'' ''2019-20'' 100]
        (Some [((''7'', ''2019-20'', ''Regular Season''),
                \<lparr> points = 8, rebounds = 0, assists = 0, steals = 0, blocks = 0 \<rparr>)])
        ''7'' ''points'' = Inr 108
   \<and> column_sum [(''2019-20'', [(''GP'', 1), (''PTS'', 100), (''REB'', 0), (''AST'', 0),
                                (''STL'', 0), (''BLK'', 0)])] ''PTS'' = 100"
  by code_simp

lemma map_of_metric_columns:
  "map_of (metric_columns df) k
     = map_option (filter (\<lambda>(c, v). c \<in> set (map fst METRICS))) (map_of df k)"
  by (induction df) (auto simp: metric_columns_def)

lemma filled_metric_columns:
  assumes "(m, dst) \<in> set METRICS"
  shows "filled (map_of (metric_columns df) k) m = filled (map_of df k) m"
proof -
  have "m \<in> set (map fst METRICS)"
    using assms by force
  then show ?thesis
    by (cases "map_of df k") (simp_all add: map_of_metric_columns filled_def map_of_filter_key)
qed

lemma map_of_keyed: "map_of (map (\<lambda>s. (s, F s)) ks) s = (if s \<in> set ks then Some (F s) else None)"
  by (induction ks) auto

lemma filled_db_career:
  assumes "game_col dst = Some gc"
  shows "filled (map_of (db_career_by_season games pid) s) dst
           = sum_col gc (filter (\<lambda>g. g_season g = s) (regular_games games pid))"
proof -
  let ?gs = "regular_games games pid"
  from assms have cases: "(dst, gc) \<in> {(''points'', g_points), (''rebounds'', g_rebounds),
       (''assists'', g_assists), (''steals'', g_steals), (''blocks'', g_blocks)}"
    by (auto simp: game_col_def split: if_splits)
  show ?thesis
  proof (cases "s \<in> g_season ` set ?gs")
    case True
    then show ?thesis
      using cases by (auto simp: db_career_by_season_def Let_def map_of_keyed filled_def)
  next
    case False
    then have "filter (\<lambda>g. g_season g = s) ?gs = []"
      by (auto simp: filter_empty_conv)
    with False show ?thesis
      by (simp add: db_career_by_season_def Let_def map_of_keyed filled_def sum_col_def)
  qed
qed

lemma merged_row_distinct:
  assumes "distinct (map fst left)" and "distinct (map fst right)"
    and "row \<in> set (merge_outer left right)"
  shows "m_nba row = map_of left (m_season row) \<and> m_db row = map_of right (m_season row)"
  using assms(3) unfolding merge_outer_distinct [OF assms(1,2)] by auto

text \<open>
  C1, amended. Suppose the fetch succeeds and no season occurs twice in the official
  series. Then \<^verbatim>\<open>process_player\<close> returns, and for every aligned season with a non-empty
  key and a non-zero delta the stored override of each tracked metric is the official value
  of that season minus the local raw value of that season (the sum of the metric over the
  player's regular-season games of the season). If moreover no aligned season has the empty
  key, the store respects its primary key, and every regular-season override row that the
  store already holds for the player belongs to a season that has a non-zero delta in this
  run (no stale row), then \<^verbatim>\<open>get_db_total\<close> (raw regular-season sum plus the player's
  overrides) is the official career total of the metric.
\<close>

theorem C1_round_trip_amended:
  assumes fetch: "nba_career_by_season to_numeric (remote pid) uniform = Inr nba_df"
    and merged: "merged = merge_outer (metric_columns nba_df) (db_career_by_season games pid)"
    and no_dup: "distinct (map fst nba_df)"
    and metric: "(m, dst) \<in> set METRICS"
    and col: "override_col dst = Some oc"
    and gcol: "game_col dst = Some gc"
  shows "\<exists>conn' updated.
      process_player to_numeric remote uniform games conn pid = Inr (conn', updated)
      \<and> (\<forall>row \<in> set merged. m_season row \<noteq> [] \<and> row_nonzero row \<longrightarrow>
            (\<exists>r. lookup_override conn' (pid, m_season row, REGULAR_SEASON) = Some r
                 \<and> oc r = nba_value row m - db_value row dst
                 \<and> nba_value row m = filled (map_of nba_df (m_season row)) m
                 \<and> db_value row dst
                     = sum_col gc (filter (\<lambda>g. g_season g = m_season row)
                                          (regular_games games pid))))
      \<and> ((\<forall>row \<in> set merged. m_season row \<noteq> [])
           \<and> distinct (map fst conn)
           \<and> (\<forall>k \<in> fst ` set conn. fst k = pid \<and> snd (snd k) = REGULAR_SEASON \<longrightarrow>
                 (\<exists>row \<in> set merged. m_season row = fst (snd k) \<and> row_nonzero row)) \<longrightarrow>
          get_db_total games (Some conn') pid dst = Inr (column_sum nba_df m))"
proof -
  let ?left = "metric_columns nba_df"
  let ?right = "db_career_by_season games pid"
  let ?calls = "upsert_calls merged"
  let ?conn' = "fold (\<lambda>(s, d) c. upsert_override c pid s d) ?calls conn"
  let ?delta = "\<lambda>row. nba_value row m - db_value row dst"
  have dl: "distinct (map fst ?left)"
    using no_dup by (simp only: metric_columns_keys)
  have dr: "distinct (map fst ?right)"
    by (rule db_career_distinct)
  have dm: "distinct (map m_season merged)"
    unfolding merged using dl dr by (rule merge_outer_distinct_seasons)
  have run: "process_player to_numeric remote uniform games conn pid = Inr (?conn', length ?calls)"
    unfolding merged using fetch by (rule process_player_rows)
  have calls_keys: "map fst ?calls = map m_season (filter (\<lambda>row. m_season row \<noteq> [] \<and> row_nonzero row) merged)"
    by (simp add: upsert_calls_def comp_def)
  have dc: "distinct (map fst ?calls)"
    unfolding calls_keys using dm by (rule distinct_map_filter)
  have stored: "\<exists>r. lookup_override ?conn' (pid, m_season row, REGULAR_SEASON) = Some r
                 \<and> oc r = nba_value row m - db_value row dst
                 \<and> nba_value row m = filled (map_of nba_df (m_season row)) m
                 \<and> db_value row dst
                     = sum_col gc (filter (\<lambda>g. g_season g = m_season row)
                                          (regular_games games pid))"
    if "row \<in> set merged" "m_season row \<noteq> [] \<and> row_nonzero row" for row
  proof -
    from that have "(m_season row, row_deltas row) \<in> set ?calls"
      by (simp add: upsert_calls_def)
    with dc have "lookup_override ?conn' (pid, m_season row, REGULAR_SEASON)
        = Some (row_of_deltas (row_deltas row))"
      by (rule lookup_after_calls)
    moreover have "oc (row_of_deltas (row_deltas row)) = nba_value row m - db_value row dst"
      by (rule delta_column [OF metric col])
    moreover from that(1) have sides: "m_nba row = map_of ?left (m_season row)
        \<and> m_db row = map_of ?right (m_season row)"
      unfolding merged by (rule merged_row_distinct [OF dl dr])
    then have "nba_value row m = filled (map_of nba_df (m_season row)) m"
      by (simp add: nba_value_def filled_metric_columns [OF metric])
    moreover from sides have "db_value row dst
        = sum_col gc (filter (\<lambda>g. g_season g = m_season row) (regular_games games pid))"
      by (simp add: db_value_def filled_db_career [OF gcol])
    ultimately show ?thesis by simp
  qed
  have total: "get_db_total games (Some ?conn') pid dst = Inr (column_sum nba_df m)"
    if no_empty: "\<forall>row \<in> set merged. m_season row \<noteq> []"
      and pk: "distinct (map fst conn)"
      and no_stale: "\<forall>k \<in> fst ` set conn. fst k = pid \<and> snd (snd k) = REGULAR_SEASON \<longrightarrow>
                 (\<exists>row \<in> set merged. m_season row = fst (snd k) \<and> row_nonzero row)"
  proof -
    have stale: "\<forall>k \<in> fst ` set conn. fst k = pid \<and> snd (snd k) = REGULAR_SEASON
                      \<longrightarrow> fst (snd k) \<in> fst ` set ?calls"
    proof (intro ballI impI)
      fix k assume "k \<in> fst ` set conn" "fst k = pid \<and> snd (snd k) = REGULAR_SEASON"
      with no_stale obtain row where "row \<in> set merged" "m_season row = fst (snd k)" "row_nonzero row"
        by blast
      with no_empty show "fst (snd k) \<in> fst ` set ?calls"
        unfolding upsert_calls_seasons by (simp, metis)
    qed
    have "override_total oc ?conn' pid = sum_list (map (\<lambda>(s, d). oc (row_of_deltas d)) ?calls)"
      using pk dc stale by (rule override_total_after_calls)
    also have "\<dots> = sum_list (map ?delta (filter (\<lambda>row. m_season row \<noteq> [] \<and> row_nonzero row) merged))"
      by (simp add: upsert_calls_def comp_def delta_column [OF metric col])
    also have "\<dots> = sum_list (map ?delta merged)"
    proof (rule sum_list_map_filter)
      fix row assume "row \<in> set merged" "\<not> (m_season row \<noteq> [] \<and> row_nonzero row)"
      with no_empty have "\<not> row_nonzero row" by blast
      then show "?delta row = 0"
        using metric by (auto simp: row_nonzero_iff)
    qed
    also have "\<dots> = sum_list (map (\<lambda>row. nba_value row m) merged)
                   - sum_list (map (\<lambda>row. db_value row dst) merged)"
      by (rule sum_list_subtractf)
    also have "\<dots> = column_sum ?left m - column_sum ?right dst"
      unfolding merged by (simp only: merged_nba_sum [OF dl dr] merged_db_sum [OF dl dr])
    finally have "override_total oc ?conn' pid = column_sum nba_df m - column_sum ?right dst"
      by (simp only: metric_columns_sum [OF metric])
    then show ?thesis
      by (simp add: get_db_total_def gcol col db_career_column_sum [OF gcol])
  qed
  from run stored total show ?thesis by blast
qed


theorem C1_round_trip_amended_witness:
  "nba_career_by_season example_to_numeric (always_returns example_frames ''7'') fixed_uniform
     = Inr [(''2019-20'', [(''GP'', 60), (''PTS'', 100), (''REB'', 10), (''AST'', 0),
                           (''STL'', 0), (''BLK'', 2)]),
            (''2018-19'', [(''GP'', 55), (''PTS'', 50), (''REB'', 1), (''AST'', 2),
                           (''STL'', 3), (''BLK'', 4)])]
   \<and> process_player example_to_numeric (always_returns example_frames) fixed_uniform example_games
        example_overrides ''7''
     = Inr ([((''9'', ''2019-20'', ''Regular Season''),
              \<lparr> points = 4, rebounds = 0, assists = 0, steals = 0, blocks = 0 \<rparr>),
             ((''7'', ''2019-20'', ''Regular Season''),
              \<lparr> points = 8, rebounds = 10, assists = 0, steals = 0, blocks = 2 \<rparr>),
             ((''7'', ''2018-19'', ''Regular Season''),
              \<lparr> points = 50, rebounds = 1, assists = 2, steals = 3, blocks = 4 \<rparr>),
             ((''7'', ''2020-21'', ''Regular Season''),
              \<lparr> points = - 3, rebounds = 0, assists = 0, steals = 0, blocks = 0 \<rparr>)], 3)
   \<and> get_db_total example_games
        (Some [((''9'', ''2019-20'', ''Regular Season''),
              \<lparr> points = 4, rebounds = 0, assists = 0, steals = 0, blocks = 0 \<rparr>),
             ((''7'', ''2019-20'', ''Regular Season''),
              \<lparr> points = 8, rebounds = 10, assists = 0, steals = 0, blocks = 2 \<rparr>),
             ((''7'', ''2018-19'', ''Regular Season''),
              \<lparr> points = 50, rebounds = 1, assists = 2, steals = 3, blocks = 4 \<rparr>),
             ((''7'', ''2020-21'', ''Regular Season''),
              \<lparr> points = - 3, rebounds = 0, assists = 0, steals = 0, blocks = 0 \<rparr>)])
        ''7'' ''points'' = Inr 150"
proof -
  let ?nba_df = "[(''2019-20'', [(''GP'', 60), (''PTS'', 100), (''REB'', 10), (''AST'', 0),
                           (''STL'', 0), (''BLK'', 2)]),
            (''2018-19'', [(''GP'', 55), (''PTS'', 50), (''REB'', 1), (''AST'', 2),
                           (''STL'', 3), (''BLK'', 4)])] :: season_row list"
  let ?merged = "merge_outer (metric_columns ?nba_df) (db_career_by_season example_games ''7'')"
  let ?after = "[((''9'', ''2019-20'', ''Regular Season''),
              \<lparr> points = 4, rebounds = 0, assists = 0, steals = 0, blocks = 0 \<rparr>),
             ((''7'', ''2019-20'', ''Regular Season''),
              \<lparr> points = 8, rebounds = 10, assists = 0, steals = 0, blocks = 2 \<rparr>),
             ((''7'', ''2018-19'', ''Regular Season''),
              \<lparr> points = 50, rebounds = 1, assists = 2, steals = 3, blocks = 4 \<rparr>),
             ((''7'', ''2020-21'', ''Regular Season''),
              \<lparr> points = - 3, rebounds = 0, assists = 0, steals = 0, blocks = 0 \<rparr>)]"
  have fetch: "nba_career_by_season example_to_numeric (always_returns example_frames ''7'') fixed_uniform = Inr ?nba_df"
    by code_simp
  have no_dup: "distinct (map fst ?nba_df)"
    by code_simp
  have no_empty: "\<forall>row \<in> set ?merged. m_season row \<noteq> []"
    by code_simp
  have pk: "distinct (map fst example_overrides)"
    by code_simp
  have no_stale: "\<forall>k \<in> fst ` set example_overrides. fst k = ''7'' \<and> snd (snd k) = REGULAR_SEASON \<longrightarrow>
                     (\<exists>row \<in> set ?merged. m_season row = fst (snd k) \<and> row_nonzero row)"
    by code_simp
  have metric: "(''PTS'', ''points'') \<in> set METRICS"
    by code_simp
  have col: "override_col ''points'' = Some points"
    by (simp add: override_col_def)
  have gcol: "game_col ''points'' = Some g_points"
    by (simp add: game_col_def)
  have run: "process_player example_to_numeric (always_returns example_frames) fixed_uniform example_games
        example_overrides ''7'' = Inr (?after, 3)"
    by code_simp
  have total: "column_sum ?nba_df ''PTS'' = 150"
    by code_simp
  from C1_round_trip_amended
         [where to_numeric = example_to_numeric and remote = "always_returns example_frames" and pid = "''7''"
            and games = example_games and conn = example_overrides,
          OF fetch refl no_dup metric col gcol]
  obtain conn' updated where
    ran: "process_player example_to_numeric (always_returns example_frames) fixed_uniform example_games
        example_overrides ''7'' = Inr (conn', updated)"
    and round_trip: "(\<forall>row \<in> set ?merged. m_season row \<noteq> [])
           \<and> distinct (map fst example_overrides)
           \<and> (\<forall>k \<in> fst ` set example_overrides. fst k = ''7'' \<and> snd (snd k) = REGULAR_SEASON \<longrightarrow>
                 (\<exists>row \<in> set ?merged. m_season row = fst (snd k) \<and> row_nonzero row)) \<longrightarrow>
          get_db_total example_games (Some conn') ''7'' ''points'' = Inr (column_sum ?nba_df ''PTS'')"
    by blast
  from ran run have "conn' = ?after"
    by simp
  with round_trip no_empty pk no_stale
  have "get_db_total example_games (Some ?after) ''7'' ''points'' = Inr (column_sum ?nba_df ''PTS'')"
    by blast
  with fetch run total show ?thesis
    by simp
qed

section \<open>Properties of the Fetcher's coercion\<close>

lemma int64_id: "- (2 ^ 63) \<le> n \<Longrightarrow> n < 2 ^ 63 \<Longrightarrow> int64 n = n"
  by (simp add: int64_def)

lemma int_part_of_int: "int_part (of_int n) = n"
  by (simp add: int_part_def)

lemma coerce_int_cases:
  "coerce_int to_numeric x
     = (case x of
          Num n \<Rightarrow> Inr (int64 n)
        | Text s \<Rightarrow>
            (case to_numeric s of
               Value v \<Rightarrow> Inr (int64 (int_part v))
             | Infinite \<Rightarrow> Inl ''Cannot convert non-finite values (NA or inf) to integer''
             | Not_a_number \<Rightarrow> Inr 0)
        | NaN \<Rightarrow> Inr 0
        | Null \<Rightarrow> Inr 0)"
  by (simp add: coerce_int_def int_part_def int64_def split: cell.splits reading.splits)

lemma coerce_int_raises:
  "(\<exists>e. coerce_int to_numeric x = Inl e) \<longleftrightarrow> (\<exists>s. x = Text s \<and> to_numeric s = Infinite)"
  by (auto simp: coerce_int_cases split: cell.splits reading.splits)

lemma first_error_None_iff: "first_error xs = None \<longleftrightarrow> (\<forall>x \<in> set xs. \<exists>v. x = Inr v)"
  by (induction xs rule: first_error.induct) auto

lemma column_error_Inr_iff:
  "(\<exists>u. column_error to_numeric f c = Inr u) \<longleftrightarrow>
     \<not> duplicated (map upper (columns f)) c
     \<and> (\<forall>r \<in> set (rows f). \<forall>s. column_cell (zip (map upper (columns f)) r) c = Text s
            \<longrightarrow> to_numeric s \<noteq> Infinite)"
proof (cases "duplicated (map upper (columns f)) c")
  case True
  then show ?thesis by (simp add: column_error_def)
next
  case False
  let ?xs = "map (\<lambda>r. coerce_int to_numeric (column_cell (zip (map upper (columns f)) r) c)) (rows f)"
  have "(\<exists>u. column_error to_numeric f c = Inr u) \<longleftrightarrow> first_error ?xs = None"
    using False by (auto simp: column_error_def split: option.splits)
  also have "\<dots> \<longleftrightarrow> (\<forall>r \<in> set (rows f).
      \<not> (\<exists>e. coerce_int to_numeric (column_cell (zip (map upper (columns f)) r) c) = Inl e))"
    unfolding first_error_None_iff by (auto, metis sum.exhaust_sel sum.disc(1) old.sum.exhaust)
  also have "\<dots> \<longleftrightarrow> (\<forall>r \<in> set (rows f). \<forall>s. column_cell (zip (map upper (columns f)) r) c = Text s
            \<longrightarrow> to_numeric s \<noteq> Infinite)"
    unfolding coerce_int_raises by blast
  finally show ?thesis using False by simp
qed

lemma season_frame_error_None_iff:
  "season_frame_error to_numeric f = None \<longleftrightarrow>
     \<not> duplicated (map upper (columns f)) ''SEASON_ID''
     \<and> (\<forall>c \<in> set keep_cols.
           \<not> duplicated (map upper (columns f)) c
           \<and> (\<forall>r \<in> set (rows f). \<forall>s. column_cell (zip (map upper (columns f)) r) c = Text s
                  \<longrightarrow> to_numeric s \<noteq> Infinite))"
proof (cases "duplicated (map upper (columns f)) ''SEASON_ID''")
  case True
  then show ?thesis by (simp add: season_frame_error_def)
next
  case False
  then have "season_frame_error to_numeric f = None \<longleftrightarrow>
      (\<forall>c \<in> set keep_cols. \<exists>u. column_error to_numeric f c = Inr u)"
    by (simp add: season_frame_error_def first_error_None_iff)
  with False show ?thesis
    by (simp only: column_error_Inr_iff simp_thms)
qed


lemma map_of_keyed_value:
  "c \<in> set cs \<Longrightarrow> map_of (map (\<lambda>c. (c, f c)) cs) c = Some (f c)"
  by (induction cs) auto

lemma normalized_value:
  assumes "c \<in> set keep_cols"
  shows "map_of (snd (normalize_row to_numeric cols r)) c
           = Some (case coerce_int to_numeric (column_cell (zip (map upper cols) r) c) of
                     Inl e \<Rightarrow> 0
                   | Inr n \<Rightarrow> n)"
  using assms by (simp add: normalize_row_def Let_def map_of_keyed_value)

lemma finite_sum_values:
  "\<forall>x \<in> set xs. x \<noteq> Infinite \<and> x \<noteq> Not_a_number \<Longrightarrow>
   finite_sum xs = Some (\<Sum>x\<leftarrow>xs. case x of Value v \<Rightarrow> v | Infinite \<Rightarrow> 0 | Not_a_number \<Rightarrow> 0)"
  by (induction xs rule: finite_sum.induct) auto

lemma finite_sum_none:
  "Infinite \<in> set xs \<or> Not_a_number \<in> set xs \<Longrightarrow> finite_sum xs = None"
  by (induction xs rule: finite_sum.induct) auto

lemma fillna_cell:
  "fillna_0 (to_numeric_cell to_numeric x)
     = (case x of
          Num n \<Rightarrow> Value (of_int n)
        | Text s \<Rightarrow>
            (case to_numeric s of
               Value v \<Rightarrow> Value v
             | Infinite \<Rightarrow> Infinite
             | Not_a_number \<Rightarrow> Value 0)
        | NaN \<Rightarrow> Value 0
        | Null \<Rightarrow> Value 0)"
  by (simp split: cell.splits reading.splits)

lemma coerced_sum_finite:
  assumes "\<forall>x \<in> set cells. \<forall>s. x = Text s \<longrightarrow> to_numeric s \<noteq> Infinite"
  shows "coerced_sum to_numeric cells
           = Some (int_part (\<Sum>x\<leftarrow>cells.
                     case x of
                       Num n \<Rightarrow> of_int n
                     | Text s \<Rightarrow>
                         (case to_numeric s of
                            Value v \<Rightarrow> v
                          | Infinite \<Rightarrow> 0
                          | Not_a_number \<Rightarrow> 0)
                     | NaN \<Rightarrow> 0
                     | Null \<Rightarrow> 0))"
proof -
  let ?xs = "map (\<lambda>x. fillna_0 (to_numeric_cell to_numeric x)) cells"
  have "\<forall>x \<in> set ?xs. x \<noteq> Infinite \<and> x \<noteq> Not_a_number"
    using assms by (auto simp: fillna_cell split: cell.splits reading.splits)
  from finite_sum_values [OF this]
  have "finite_sum ?xs
          = Some (\<Sum>x\<leftarrow>?xs. case x of Value v \<Rightarrow> v | Infinite \<Rightarrow> 0 | Not_a_number \<Rightarrow> 0)" .
  moreover have "(\<Sum>x\<leftarrow>?xs. case x of Value v \<Rightarrow> v | Infinite \<Rightarrow> 0 | Not_a_number \<Rightarrow> 0)
      = (\<Sum>x\<leftarrow>cells.
                     case x of
                       Num n \<Rightarrow> of_int n
                     | Text s \<Rightarrow>
                         (case to_numeric s of
                            Value v \<Rightarrow> v
                          | Infinite \<Rightarrow> 0
                          | Not_a_number \<Rightarrow> 0)
                     | NaN \<Rightarrow> 0
                     | Null \<Rightarrow> 0)"
    unfolding map_map comp_def
    by (intro arg_cong [where f = sum_list] map_cong refl)
       (simp add: fillna_cell split: cell.splits reading.splits)
  ultimately show ?thesis
    by (simp add: coerced_sum_def)
qed

lemma coerced_sum_infinite:
  assumes "\<exists>x \<in> set cells. \<exists>s. x = Text s \<and> to_numeric s = Infinite"
  shows "coerced_sum to_numeric cells = None"
proof -
  from assms obtain s where "Text s \<in> set cells" "to_numeric s = Infinite"
    by blast
  then have "Infinite \<in> set (map (\<lambda>x. fillna_0 (to_numeric_cell to_numeric x)) cells)"
    by force
  then have "finite_sum (map (\<lambda>x. fillna_0 (to_numeric_cell to_numeric x)) cells) = None"
    by (intro finite_sum_none disjI1)
  then show ?thesis
    by (simp add: coerced_sum_def)
qed

lemma totals_of_columns_some:
  "\<forall>c \<in> set cs. count_list (columns f) c = 1
      \<and> (\<forall>r \<in> set (rows f). \<forall>s. column_cell (zip (columns f) r) c = Text s
             \<longrightarrow> to_numeric s \<noteq> Infinite) \<Longrightarrow>
   totals_of_columns to_numeric f cs
     = Some (map (\<lambda>c. (c, int_part (\<Sum>r\<leftarrow>rows f.
                           case column_cell (zip (columns f) r) c of
                             Num n \<Rightarrow> of_int n
                           | Text s \<Rightarrow>
                               (case to_numeric s of
                                  Value v \<Rightarrow> v
                                | Infinite \<Rightarrow> 0
                                | Not_a_number \<Rightarrow> 0)
                           | NaN \<Rightarrow> 0
                           | Null \<Rightarrow> 0))) cs)"
proof (induction cs)
  case Nil
  then show ?case by simp
next
  case (Cons c cs)
  let ?cells = "map (\<lambda>r. column_cell (zip (columns f) r) c) (rows f)"
  from Cons.prems have one: "count_list (columns f) c = 1"
    and fin: "\<forall>x \<in> set ?cells. \<forall>s. x = Text s \<longrightarrow> to_numeric s \<noteq> Infinite"
    by auto
  from one have cells: "column_cells f c = Some ?cells"
    by (simp add: column_cells_def)
  from Cons.prems have rest: "\<forall>c \<in> set cs. count_list (columns f) c = 1
      \<and> (\<forall>r \<in> set (rows f). \<forall>s. column_cell (zip (columns f) r) c = Text s
             \<longrightarrow> to_numeric s \<noteq> Infinite)"
    by simp
  show ?case
    by (simp add: cells coerced_sum_finite [OF fin] Cons.IH [OF rest] comp_def)
qed

lemma totals_of_columns_none:
  "\<exists>c \<in> set cs. \<not> (count_list (columns f) c = 1
      \<and> (\<forall>r \<in> set (rows f). \<forall>s. column_cell (zip (columns f) r) c = Text s
             \<longrightarrow> to_numeric s \<noteq> Infinite)) \<Longrightarrow>
   totals_of_columns to_numeric f cs = None"
proof (induction cs)
  case Nil
  then show ?case by simp
next
  case (Cons c cs)
  show ?case
  proof (cases "count_list (columns f) c = 1")
    case False
    then show ?thesis by (simp add: column_cells_def)
  next
    case one: True
    let ?cells = "map (\<lambda>r. column_cell (zip (columns f) r) c) (rows f)"
    from one have cells: "column_cells f c = Some ?cells"
      by (simp add: column_cells_def)
    show ?thesis
    proof (cases "\<forall>r \<in> set (rows f). \<forall>s. column_cell (zip (columns f) r) c = Text s
             \<longrightarrow> to_numeric s \<noteq> Infinite")
      case False
      then have "\<exists>x \<in> set ?cells. \<exists>s. x = Text s \<and> to_numeric s = Infinite"
        by auto
      from coerced_sum_infinite [OF this] cells show ?thesis
        by simp
    next
      case True
      with one Cons.prems have "\<exists>c \<in> set cs. \<not> (count_list (columns f) c = 1
          \<and> (\<forall>r \<in> set (rows f). \<forall>s. column_cell (zip (columns f) r) c = Text s
                 \<longrightarrow> to_numeric s \<noteq> Infinite))"
        by auto
      from Cons.IH [OF this] show ?thesis
        by (simp add: cells split: option.splits)
    qed
  qed
qed

lemma totals_of_columns_clean:
  assumes "totals_of_columns to_numeric f cs \<noteq> None"
  shows "\<forall>c \<in> set cs. count_list (columns f) c = 1
      \<and> (\<forall>r \<in> set (rows f). \<forall>s. column_cell (zip (columns f) r) c = Text s
             \<longrightarrow> to_numeric s \<noteq> Infinite)"
proof (rule ccontr)
  assume "\<not> (\<forall>c \<in> set cs. count_list (columns f) c = 1
      \<and> (\<forall>r \<in> set (rows f). \<forall>s. column_cell (zip (columns f) r) c = Text s
             \<longrightarrow> to_numeric s \<noteq> Infinite))"
  then have "\<exists>c \<in> set cs. \<not> (count_list (columns f) c = 1
      \<and> (\<forall>r \<in> set (rows f). \<forall>s. column_cell (zip (columns f) r) c = Text s
             \<longrightarrow> to_numeric s \<noteq> Infinite))"
    by blast
  from totals_of_columns_none [OF this] assms show False
    by simp
qed

lemma totals_of_columns_unclean:
  assumes "totals_of_columns to_numeric f cs = None"
  shows "\<not> (\<forall>c \<in> set cs. count_list (columns f) c = 1
      \<and> (\<forall>r \<in> set (rows f). \<forall>s. column_cell (zip (columns f) r) c = Text s
             \<longrightarrow> to_numeric s \<noteq> Infinite))"
proof
  assume "\<forall>c \<in> set cs. count_list (columns f) c = 1
      \<and> (\<forall>r \<in> set (rows f). \<forall>s. column_cell (zip (columns f) r) c = Text s
             \<longrightarrow> to_numeric s \<noteq> Infinite)"
  from totals_of_columns_some [OF this] assms show False
    by simp
qed

lemma full_record_iff: "full_record cached \<longleftrightarrow> set TRACKED \<subseteq> fst ` set cached"
  by (auto simp: full_record_def list_all_iff TRACKED_def)

lemma fetch_official_totals_miss:
  assumes "case map_of (effective_cache st) player_id of None \<Rightarrow> True | Some c \<Rightarrow> \<not> full_record c"
  shows "fst (fetch_official_totals to_numeric remote uniform write_ok st player_id)
           = remote_totals to_numeric (remote player_id) uniform"
  using assms by (simp add: fetch_official_totals_def Let_def split: option.splits)

lemma validate_row_skips:
  assumes "metric_meta metric_key = Some (table_key, db_col)"
    and "py_int int_of_text (official_cell row table_key) = None"
  shows "validate_row int_of_text games overrides null_count metric_key rank_col row = Inr None"
  using assms by (simp add: validate_row_def Let_def split: option.splits)

lemma validate_row_reports:
  assumes meta: "metric_meta metric_key = Some (table_key, db_col)"
    and pid: "first_present [''PLAYER_ID'', ''PERSON_ID'', ''PLAYERID'', ''PERSONID''] row = Some pc"
    and val: "py_int int_of_text (official_cell row table_key) = Some v"
    and tot: "get_db_total games overrides (str_cell (column_cell row pc)) db_col = Inr t"
    and rank: "rank_col = None \<and> rank = None
                 \<or> (\<exists>rc k. rank_col = Some rc \<and> map_of row rc = Some (Num k) \<and> rank = Some k)"
  shows "\<exists>r. validate_row int_of_text games overrides null_count metric_key rank_col row
                = Inr (Some r)
              \<and> r_player_id r = str_cell (column_cell row pc)
              \<and> r_nba_official r = v \<and> r_db_total r = t \<and> r_delta r = t - v \<and> r_rank r = rank"
proof -
  from rank have "(case rank_col of
                     None \<Rightarrow> Some None
                   | Some rc \<Rightarrow>
                       if rc \<in> fst ` set row
                       then map_option Some (py_int int_of_text (map_of row rc))
                       else Some None) = Some rank"
  proof (elim disjE exE conjE)
    assume "rank_col = None" "rank = None"
    then show ?thesis by simp
  next
    fix rc k
    assume a: "rank_col = Some rc" "map_of row rc = Some (Num k)" "rank = Some k"
    from a(2) have "rc \<in> fst ` set row"
      by (metis map_of_eq_None_iff option.distinct(1))
    with a show ?thesis by simp
  qed
  with meta pid val tot show ?thesis
    by (simp add: validate_row_def Let_def)
qed


text \<open>
  C8, as the claim states it, fails on the leaderboard validation path: a leaders row whose
  points value is the text \<^verbatim>\<open>n/a\<close> gives no report row at all (\<^verbatim>\<open>int(official_value)\<close>
  raises and the \<^verbatim>\<open>except\<close> branch is \<^verbatim>\<open>continue\<close>), whereas a value treated as zero
  would give the report row of the third conjunct.
\<close>

theorem C8_counterexample:
  "py_int decimal_text (official_cell [(''PLAYER_ID'', Num 8), (''PLAYER_NAME'', Text ''B''),
                          (''PTS'', Text ''n/a''), (''PTS_RANK'', Num 2)] ''PTS'') = None
   \<and> validate_rows decimal_text [] None no_null_rows ''points'' (Some ''PTS_RANK'')
        [[(''PLAYER_ID'', Num 8), (''PLAYER_NAME'', Text ''B''), (''PTS'', Text ''n/a''),
          (''PTS_RANK'', Num 2)]] = Inr []
   \<and> validate_rows decimal_text [] None no_null_rows ''points'' (Some ''PTS_RANK'')
        [[(''PLAYER_ID'', Num 8), (''PLAYER_NAME'', Text ''B''), (''PTS'', Num 0),
          (''PTS_RANK'', Num 2)]]
       = Inr [\<lparr> r_metric = ''points'', r_rank = Some 2, r_player_id = ''8'', r_player = ''B'',
                r_nba_official = 0, r_db_total = 0, r_delta = 0,
                r_null_season_type_rows = 0 \<rparr>]"
  by code_simp

text \<open>
  C8, amended. In the per-season career fetch, when the request succeeds, no needed
  column occurs twice once the names are in upper case, and no cell of a kept column is a
  text that pandas reads as an infinity, nothing is raised, every row of the matched frame
  is kept, and every kept column is an integer: the number in the cell, the integer part
  of the number that pandas reads from a text, and 0 for a text that pandas does not read
  as a number, for NaN and for \<^verbatim>\<open>None\<close> (cast to 64 bits, which leaves a number of that
  range as it is). Otherwise the fetch raises. On a cache miss \<^verbatim>\<open>fetch_official_totals\<close>
  returns, for each tracked column, the integer part of the sum of the column under the
  same reading, when the matched frame has every tracked column exactly once under its
  exact name and no cell of them is a text read as an infinity; otherwise it returns no
  totals. In the leaderboard validation path a row whose metric value is missing, NaN,
  \<^verbatim>\<open>None\<close> or a text that \<^verbatim>\<open>int\<close> does not convert is skipped: it gives no report row;
  a row whose value is a number, or a text that \<^verbatim>\<open>int\<close> converts, gives a report row
  with that value.
\<close>

theorem C8_coercion_amended:
  "(result (request_with_retries remote uniform) = Inr frames
      \<and> find_seasonal_frame frames = Some f \<longrightarrow>
      (if \<not> duplicated (map upper (columns f)) ''SEASON_ID''
          \<and> (\<forall>c \<in> set keep_cols.
                \<not> duplicated (map upper (columns f)) c
                \<and> (\<forall>r \<in> set (rows f). \<forall>s.
                       column_cell (zip (map upper (columns f)) r) c = Text s
                       \<longrightarrow> to_numeric s \<noteq> Infinite))
       then nba_career_by_season to_numeric remote uniform
              = Inr (map (normalize_row to_numeric (columns f)) (rows f))
            \<and> (\<forall>r \<in> set (rows f). \<forall>c \<in> set keep_cols.
                  map_of (snd (normalize_row to_numeric (columns f) r)) c
                    = Some (case column_cell (zip (map upper (columns f)) r) c of
                              Num n \<Rightarrow> int64 n
                            | Text s \<Rightarrow>
                                (case to_numeric s of
                                   Value x \<Rightarrow> int64 (int_part x)
                                 | Infinite \<Rightarrow> 0
                                 | Not_a_number \<Rightarrow> 0)
                            | NaN \<Rightarrow> 0
                            | Null \<Rightarrow> 0))
       else (\<exists>e. nba_career_by_season to_numeric remote uniform = Inl e)))
   \<and> (\<forall>n. - (2 ^ 63) \<le> n \<and> n < 2 ^ 63 \<longrightarrow> int64 n = n)
   \<and> (\<forall>n. int_part (of_int n) = n)
   \<and> ((map_of (effective_cache st) player_id = None
         \<or> (\<exists>cached. map_of (effective_cache st) player_id = Some cached
                      \<and> \<not> set TRACKED \<subseteq> fst ` set cached))
       \<and> result (request_with_retries (provider player_id) uniform) = Inr responses
       \<and> find (\<lambda>f. set TRACKED \<subseteq> set (map upper (columns f))) responses = Some g \<longrightarrow>
       fst (fetch_official_totals to_numeric provider uniform write_ok st player_id)
         = (if \<forall>c \<in> set TRACKED.
                  count_list (columns g) c = 1
                  \<and> (\<forall>r \<in> set (rows g). \<forall>s.
                         column_cell (zip (columns g) r) c = Text s \<longrightarrow> to_numeric s \<noteq> Infinite)
            then Some (map (\<lambda>c. (c, int_part (\<Sum>r\<leftarrow>rows g.
                              case column_cell (zip (columns g) r) c of
                                Num n \<Rightarrow> of_int n
                              | Text s \<Rightarrow>
                                  (case to_numeric s of
                                     Value x \<Rightarrow> x
                                   | Infinite \<Rightarrow> 0
                                   | Not_a_number \<Rightarrow> 0)
                              | NaN \<Rightarrow> 0
                              | Null \<Rightarrow> 0))) TRACKED)
            else None))
   \<and> (metric_meta metric_key = Some (table_key, db_col) \<longrightarrow>
        (official_cell row table_key = None \<or> official_cell row table_key = Some NaN
           \<or> official_cell row table_key = Some Null
           \<or> (\<exists>s. official_cell row table_key = Some (Text s) \<and> int_of_text s = None) \<longrightarrow>
         validate_row int_of_text games overrides null_count metric_key rank_col row = Inr None)
        \<and> (first_present [''PLAYER_ID'', ''PERSON_ID'', ''PLAYERID'', ''PERSONID''] row = Some pc
             \<and> (official_cell row table_key = Some (Num v)
                  \<or> (\<exists>s. official_cell row table_key = Some (Text s) \<and> int_of_text s = Some v))
             \<and> get_db_total games overrides (str_cell (column_cell row pc)) db_col = Inr t
             \<and> (rank_col = None \<and> rank = None
                  \<or> (\<exists>rc k. rank_col = Some rc \<and> map_of row rc = Some (Num k) \<and> rank = Some k)) \<longrightarrow>
            (\<exists>r. validate_row int_of_text games overrides null_count metric_key rank_col row
                    = Inr (Some r)
                  \<and> r_player_id r = str_cell (column_cell row pc)
                  \<and> r_nba_official r = v \<and> r_db_total r = t \<and> r_delta r = t - v
                  \<and> r_rank r = rank)))"
proof (intro conjI impI allI)
  assume a: "result (request_with_retries remote uniform) = Inr frames
      \<and> find_seasonal_frame frames = Some f"
  let ?clean = "\<not> duplicated (map upper (columns f)) ''SEASON_ID''
          \<and> (\<forall>c \<in> set keep_cols.
                \<not> duplicated (map upper (columns f)) c
                \<and> (\<forall>r \<in> set (rows f). \<forall>s.
                       column_cell (zip (map upper (columns f)) r) c = Text s
                       \<longrightarrow> to_numeric s \<noteq> Infinite))"
  show "if ?clean
       then nba_career_by_season to_numeric remote uniform
              = Inr (map (normalize_row to_numeric (columns f)) (rows f))
            \<and> (\<forall>r \<in> set (rows f). \<forall>c \<in> set keep_cols.
                  map_of (snd (normalize_row to_numeric (columns f) r)) c
                    = Some (case column_cell (zip (map upper (columns f)) r) c of
                              Num n \<Rightarrow> int64 n
                            | Text s \<Rightarrow>
                                (case to_numeric s of
                                   Value x \<Rightarrow> int64 (int_part x)
                                 | Infinite \<Rightarrow> 0
                                 | Not_a_number \<Rightarrow> 0)
                            | NaN \<Rightarrow> 0
                            | Null \<Rightarrow> 0))
       else (\<exists>e. nba_career_by_season to_numeric remote uniform = Inl e)"
  proof (cases ?clean)
    case True
    then have ok: "season_frame_error to_numeric f = None"
      using season_frame_error_None_iff [of to_numeric f] by blast
    with a have fetched: "nba_career_by_season to_numeric remote uniform
              = Inr (map (normalize_row to_numeric (columns f)) (rows f))"
      by (simp add: nba_career_by_season_def)
    have coerced: "map_of (snd (normalize_row to_numeric (columns f) r)) c
                    = Some (case column_cell (zip (map upper (columns f)) r) c of
                              Num n \<Rightarrow> int64 n
                            | Text s \<Rightarrow>
                                (case to_numeric s of
                                   Value x \<Rightarrow> int64 (int_part x)
                                 | Infinite \<Rightarrow> 0
                                 | Not_a_number \<Rightarrow> 0)
                            | NaN \<Rightarrow> 0
                            | Null \<Rightarrow> 0)"
      if "r \<in> set (rows f)" "c \<in> set keep_cols" for r c
      unfolding normalized_value [OF that(2)] coerce_int_cases
      by (simp split: cell.splits reading.splits)
    then have "\<forall>r \<in> set (rows f). \<forall>c \<in> set keep_cols.
                  map_of (snd (normalize_row to_numeric (columns f) r)) c
                    = Some (case column_cell (zip (map upper (columns f)) r) c of
                              Num n \<Rightarrow> int64 n
                            | Text s \<Rightarrow>
                                (case to_numeric s of
                                   Value x \<Rightarrow> int64 (int_part x)
                                 | Infinite \<Rightarrow> 0
                                 | Not_a_number \<Rightarrow> 0)
                            | NaN \<Rightarrow> 0
                            | Null \<Rightarrow> 0)"
      by blast
    with fetched show ?thesis
      unfolding if_P [OF True] by (rule conjI)
  next
    case False
    then have "season_frame_error to_numeric f \<noteq> None"
      using season_frame_error_None_iff [of to_numeric f] by blast
    with a have "\<exists>e. nba_career_by_season to_numeric remote uniform = Inl e"
      by (auto simp: nba_career_by_season_def)
    then show ?thesis
      unfolding if_not_P [OF False] .
  qed
next
  fix n :: int
  assume "- (2 ^ 63) \<le> n \<and> n < 2 ^ 63"
  then show "int64 n = n"
    by (simp add: int64_id)
next
  fix n :: int
  show "int_part (of_int n) = n"
    by (rule int_part_of_int)
next
  assume a: "(map_of (effective_cache st) player_id = None
         \<or> (\<exists>cached. map_of (effective_cache st) player_id = Some cached
                      \<and> \<not> set TRACKED \<subseteq> fst ` set cached))
       \<and> result (request_with_retries (provider player_id) uniform) = Inr responses
       \<and> find (\<lambda>f. set TRACKED \<subseteq> set (map upper (columns f))) responses = Some g"
  then have miss: "case map_of (effective_cache st) player_id of
                     None \<Rightarrow> True | Some c \<Rightarrow> \<not> full_record c"
    by (auto simp: full_record_iff split: option.splits)
  have fetched: "fst (fetch_official_totals to_numeric provider uniform write_ok st player_id)
                   = totals_of_columns to_numeric g TRACKED"
    unfolding fetch_official_totals_miss [OF miss] using a by (simp add: remote_totals_def)
  let ?clean = "\<forall>c \<in> set TRACKED.
                  count_list (columns g) c = 1
                  \<and> (\<forall>r \<in> set (rows g). \<forall>s.
                         column_cell (zip (columns g) r) c = Text s \<longrightarrow> to_numeric s \<noteq> Infinite)"
  show "fst (fetch_official_totals to_numeric provider uniform write_ok st player_id)
         = (if ?clean
            then Some (map (\<lambda>c. (c, int_part (\<Sum>r\<leftarrow>rows g.
                              case column_cell (zip (columns g) r) c of
                                Num n \<Rightarrow> of_int n
                              | Text s \<Rightarrow>
                                  (case to_numeric s of
                                     Value x \<Rightarrow> x
                                   | Infinite \<Rightarrow> 0
                                   | Not_a_number \<Rightarrow> 0)
                              | NaN \<Rightarrow> 0
                              | Null \<Rightarrow> 0))) TRACKED)
            else None)"
  proof (cases ?clean)
    case True
    from totals_of_columns_some [OF True] show ?thesis
      unfolding fetched if_P [OF True] .
  next
    case False
    then have "\<exists>c \<in> set TRACKED. \<not> (count_list (columns g) c = 1
                  \<and> (\<forall>r \<in> set (rows g). \<forall>s.
                         column_cell (zip (columns g) r) c = Text s \<longrightarrow> to_numeric s \<noteq> Infinite))"
      by blast
    from totals_of_columns_none [OF this] show ?thesis
      unfolding fetched if_not_P [OF False] .
  qed
next
  assume meta: "metric_meta metric_key = Some (table_key, db_col)"
    and "official_cell row table_key = None \<or> official_cell row table_key = Some NaN
           \<or> official_cell row table_key = Some Null
           \<or> (\<exists>s. official_cell row table_key = Some (Text s) \<and> int_of_text s = None)"
  then have "py_int int_of_text (official_cell row table_key) = None"
    by auto
  with meta show "validate_row int_of_text games overrides null_count metric_key rank_col row = Inr None"
    by (rule validate_row_skips)
next
  assume meta: "metric_meta metric_key = Some (table_key, db_col)"
    and a: "first_present [''PLAYER_ID'', ''PERSON_ID'', ''PLAYERID'', ''PERSONID''] row = Some pc
             \<and> (official_cell row table_key = Some (Num v)
                  \<or> (\<exists>s. official_cell row table_key = Some (Text s) \<and> int_of_text s = Some v))
             \<and> get_db_total games overrides (str_cell (column_cell row pc)) db_col = Inr t
             \<and> (rank_col = None \<and> rank = None
                  \<or> (\<exists>rc k. rank_col = Some rc \<and> map_of row rc = Some (Num k) \<and> rank = Some k))"
  then have val: "py_int int_of_text (official_cell row table_key) = Some v"
    by auto
  from a show "\<exists>r. validate_row int_of_text games overrides null_count metric_key rank_col row
                    = Inr (Some r)
                  \<and> r_player_id r = str_cell (column_cell row pc)
                  \<and> r_nba_official r = v \<and> r_db_total r = t \<and> r_delta r = t - v
                  \<and> r_rank r = rank"
    by (intro validate_row_reports [OF meta _ val]) simp_all
qed


theorem C8_coercion_amended_witness:
  "nba_career_by_season example_to_numeric (always_returns example_text_frames ''7'') fixed_uniform
     = Inr [(''2019-20'', [(''GP'', 60), (''PTS'', 12), (''REB'', 12), (''AST'', 0),
                           (''STL'', 0), (''BLK'', 2)]),
            (''2018-19'', [(''GP'', 55), (''PTS'', 50), (''REB'', 12), (''AST'', 0),
                           (''STL'', 3), (''BLK'', - 4)])]
   \<and> nba_career_by_season example_to_numeric (always_returns example_duplicate_frames ''7'')
        fixed_uniform
     = Inl ''arg must be a list, tuple, 1-d array, or Series''
   \<and> nba_career_by_season example_to_numeric (always_returns example_infinite_frames ''7'')
        fixed_uniform
     = Inl ''Cannot convert non-finite values (NA or inf) to integer''
   \<and> int64 12 = 12
   \<and> fst (fetch_official_totals example_to_numeric (always_returns example_text_frames)
            fixed_uniform True empty_cache_state ''7'')
     = Some [(''PTS'', 62), (''REB'', 25), (''AST'', 0), (''STL'', 3), (''BLK'', - 2)]
   \<and> fst (fetch_official_totals example_to_numeric (always_returns example_mixed_case_frames)
            fixed_uniform True empty_cache_state ''7'') = None
   \<and> fst (fetch_official_totals example_to_numeric (always_returns example_infinite_frames)
            fixed_uniform True empty_cache_state ''7'') = None
   \<and> validate_row decimal_text [] None no_null_rows ''points'' None
        [(''PLAYER_ID'', Num 8), (''PTS'', Text ''n/a'')] = Inr None
   \<and> validate_row decimal_text [] None no_null_rows ''points'' (Some ''PTS_RANK'')
        [(''PLAYER_ID'', Num 8), (''PLAYER_NAME'', Text ''B''), (''PTS'', Text ''12''),
         (''PTS_RANK'', Num 2)]
     = Inr (Some \<lparr> r_metric = ''points'', r_rank = Some 2, r_player_id = ''8'', r_player = ''B'',
                    r_nba_official = 12, r_db_total = 0, r_delta = - 12,
                    r_null_season_type_rows = 0 \<rparr>)"
proof -
  let ?f = "example_text_frames ! 0"
  let ?i = "example_infinite_frames ! 0"
  let ?l = "example_mixed_case_frames ! 0"
  let ?skipped = "[(''PLAYER_ID'', Num 8), (''PTS'', Text ''n/a'')]"
  let ?fresh = "[(''PTS'', 62), (''REB'', 25), (''AST'', 0), (''STL'', 3), (''BLK'', - 2)] :: totals"
  have h1: "result (request_with_retries (always_returns example_text_frames ''7'') fixed_uniform)
     = Inr example_text_frames"
    by code_simp
  have h2: "find_seasonal_frame example_text_frames = Some ?f"
    by code_simp
  have "season_frame_error example_to_numeric ?f = None"
    by code_simp
  then have h3: "\<not> duplicated (map upper (columns ?f)) ''SEASON_ID''
          \<and> (\<forall>c \<in> set keep_cols.
                \<not> duplicated (map upper (columns ?f)) c
                \<and> (\<forall>r \<in> set (rows ?f). \<forall>s.
                       column_cell (zip (map upper (columns ?f)) r) c = Text s
                       \<longrightarrow> example_to_numeric s \<noteq> Infinite))"
    using season_frame_error_None_iff [of example_to_numeric ?f] by blast
  have rows: "map (normalize_row example_to_numeric (columns ?f)) (rows ?f)
     = [(''2019-20'', [(''GP'', 60), (''PTS'', 12), (''REB'', 12), (''AST'', 0),
                           (''STL'', 0), (''BLK'', 2)]),
            (''2018-19'', [(''GP'', 55), (''PTS'', 50), (''REB'', 12), (''AST'', 0),
                           (''STL'', 3), (''BLK'', - 4)])]"
    by code_simp
  have d1: "nba_career_by_season example_to_numeric (always_returns example_duplicate_frames ''7'')
        fixed_uniform
     = Inl ''arg must be a list, tuple, 1-d array, or Series''"
    by code_simp
  have i1: "nba_career_by_season example_to_numeric (always_returns example_infinite_frames ''7'')
        fixed_uniform
     = Inl ''Cannot convert non-finite values (NA or inf) to integer''"
    by code_simp
  have m1: "map_of (effective_cache empty_cache_state) ''7'' = None"
    by code_simp
  have m2: "find (\<lambda>f. set TRACKED \<subseteq> set (map upper (columns f))) example_text_frames = Some ?f"
    by code_simp
  have "totals_of_columns example_to_numeric ?f TRACKED \<noteq> None"
    by code_simp
  then have m3: "\<forall>c \<in> set TRACKED.
                  count_list (columns ?f) c = 1
                  \<and> (\<forall>r \<in> set (rows ?f). \<forall>s.
                         column_cell (zip (columns ?f) r) c = Text s
                         \<longrightarrow> example_to_numeric s \<noteq> Infinite)"
    by (rule totals_of_columns_clean)
  have m4: "map (\<lambda>c. (c, int_part (\<Sum>r\<leftarrow>rows ?f.
                              case column_cell (zip (columns ?f) r) c of
                                Num n \<Rightarrow> of_int n
                              | Text s \<Rightarrow>
                                  (case example_to_numeric s of
                                     Value x \<Rightarrow> x
                                   | Infinite \<Rightarrow> 0
                                   | Not_a_number \<Rightarrow> 0)
                              | NaN \<Rightarrow> 0
                              | Null \<Rightarrow> 0))) TRACKED = ?fresh"
    by code_simp
  have l1: "result (request_with_retries (always_returns example_mixed_case_frames ''7'') fixed_uniform)
     = Inr example_mixed_case_frames"
    by code_simp
  have l2: "find (\<lambda>f. set TRACKED \<subseteq> set (map upper (columns f))) example_mixed_case_frames = Some ?l"
    by code_simp
  have "totals_of_columns example_to_numeric ?l TRACKED = None"
    by code_simp
  then have l3: "\<not> (\<forall>c \<in> set TRACKED.
                  count_list (columns ?l) c = 1
                  \<and> (\<forall>r \<in> set (rows ?l). \<forall>s.
                         column_cell (zip (columns ?l) r) c = Text s
                         \<longrightarrow> example_to_numeric s \<noteq> Infinite))"
    by (rule totals_of_columns_unclean)
  have j1: "result (request_with_retries (always_returns example_infinite_frames ''7'') fixed_uniform)
     = Inr example_infinite_frames"
    by code_simp
  have j2: "find (\<lambda>f. set TRACKED \<subseteq> set (map upper (columns f))) example_infinite_frames = Some ?i"
    by code_simp
  have "totals_of_columns example_to_numeric ?i TRACKED = None"
    by code_simp
  then have j3: "\<not> (\<forall>c \<in> set TRACKED.
                  count_list (columns ?i) c = 1
                  \<and> (\<forall>r \<in> set (rows ?i). \<forall>s.
                         column_cell (zip (columns ?i) r) c = Text s
                         \<longrightarrow> example_to_numeric s \<noteq> Infinite))"
    by (rule totals_of_columns_unclean)
  have v1: "metric_meta ''points'' = Some (''PTS'', ''points'')"
    by code_simp
  have v2: "official_cell ?skipped ''PTS'' = Some (Text ''n/a'')"
    by code_simp
  have v3: "decimal_text ''n/a'' = None"
    by code_simp
  have v4: "validate_row decimal_text [] None no_null_rows ''points'' (Some ''PTS_RANK'')
        [(''PLAYER_ID'', Num 8), (''PLAYER_NAME'', Text ''B''), (''PTS'', Text ''12''),
         (''PTS_RANK'', Num 2)]
     = Inr (Some \<lparr> r_metric = ''points'', r_rank = Some 2, r_player_id = ''8'', r_player = ''B'',
                    r_nba_official = 12, r_db_total = 0, r_delta = - 12,
                    r_null_season_type_rows = 0 \<rparr>)"
    by code_simp
  note c8 = C8_coercion_amended
      [where to_numeric = example_to_numeric and int_of_text = decimal_text
         and remote = "always_returns example_text_frames ''7''" and uniform = fixed_uniform
         and frames = example_text_frames and f = ?f
         and st = empty_cache_state and player_id = "''7''"
         and provider = "always_returns example_text_frames" and write_ok = True
         and responses = example_text_frames and g = ?f
         and metric_key = "''points''" and table_key = "''PTS''" and db_col = "''points''"
         and row = ?skipped and games = "[]" and overrides = None and null_count = no_null_rows
         and rank_col = None]
  note c8_mixed = C8_coercion_amended
      [where to_numeric = example_to_numeric and uniform = fixed_uniform
         and st = empty_cache_state and player_id = "''7''"
         and provider = "always_returns example_mixed_case_frames" and write_ok = True
         and responses = example_mixed_case_frames and g = ?l]
  note c8_infinite = C8_coercion_amended
      [where to_numeric = example_to_numeric and uniform = fixed_uniform
         and st = empty_cache_state and player_id = "''7''"
         and provider = "always_returns example_infinite_frames" and write_ok = True
         and responses = example_infinite_frames and g = ?i]
  from c8 h1 h2 have "if \<not> duplicated (map upper (columns ?f)) ''SEASON_ID''
          \<and> (\<forall>c \<in> set keep_cols.
                \<not> duplicated (map upper (columns ?f)) c
                \<and> (\<forall>r \<in> set (rows ?f). \<forall>s.
                       column_cell (zip (map upper (columns ?f)) r) c = Text s
                       \<longrightarrow> example_to_numeric s \<noteq> Infinite))
       then nba_career_by_season example_to_numeric (always_returns example_text_frames ''7'') fixed_uniform
              = Inr (map (normalize_row example_to_numeric (columns ?f)) (rows ?f))
            \<and> (\<forall>r \<in> set (rows ?f). \<forall>c \<in> set keep_cols.
                  map_of (snd (normalize_row example_to_numeric (columns ?f) r)) c
                    = Some (case column_cell (zip (map upper (columns ?f)) r) c of
                              Num n \<Rightarrow> int64 n
                            | Text s \<Rightarrow>
                                (case example_to_numeric s of
                                   Value x \<Rightarrow> int64 (int_part x)
                                 | Infinite \<Rightarrow> 0
                                 | Not_a_number \<Rightarrow> 0)
                            | NaN \<Rightarrow> 0
                            | Null \<Rightarrow> 0))
       else (\<exists>e. nba_career_by_season example_to_numeric (always_returns example_text_frames ''7'') fixed_uniform = Inl e)"
    by blast
  then have fetch:
    "nba_career_by_season example_to_numeric (always_returns example_text_frames ''7'') fixed_uniform
       = Inr (map (normalize_row example_to_numeric (columns ?f)) (rows ?f))"
    unfolding if_P [OF h3] by (rule conjunct1)
  from c8 have wrap: "int64 12 = 12"
    by simp
  from c8 m1 h1 m2 have totals:
    "fst (fetch_official_totals example_to_numeric (always_returns example_text_frames) fixed_uniform
            True empty_cache_state ''7'') = Some ?fresh"
    unfolding if_P [OF m3] m4 by blast
  from c8_mixed m1 l1 l2 have none:
    "fst (fetch_official_totals example_to_numeric (always_returns example_mixed_case_frames)
            fixed_uniform True empty_cache_state ''7'') = None"
    unfolding if_not_P [OF l3] by blast
  from c8_infinite m1 j1 j2 have infinite:
    "fst (fetch_official_totals example_to_numeric (always_returns example_infinite_frames)
            fixed_uniform True empty_cache_state ''7'') = None"
    unfolding if_not_P [OF j3] by blast
  from c8 v1 v2 v3 have skip:
    "validate_row decimal_text [] None no_null_rows ''points'' None ?skipped = Inr None"
    by blast
  from fetch d1 i1 wrap totals none infinite skip v4 show ?thesis
    by (simp only: rows simp_thms)
qed

section \<open>Properties of the Totals Cache\<close>

text \<open>
  C9. Let the lookup read the in-memory cache, loaded from the file when it is empty. A
  record of the player that holds all five tracked keys is returned as it is, and no
  remote request is made. A cache file that cannot be read or parsed leaves the empty
  cache and raises nothing. When the player has no record, or one that lacks a tracked
  key, one remote request is made and its outcome is the result; a successful outcome is
  stored under the player in the in-memory cache, and the cache file holds that cache
  when the write goes through.
\<close>

theorem C9_cache_read_contract:
  "(\<forall>cached. map_of (effective_cache st) player_id = Some cached
               \<and> set TRACKED \<subseteq> fst ` set cached \<longrightarrow>
       fetch_official_totals to_numeric remote uniform write_ok st player_id
         = (Some cached, st\<lparr> CAREER_CACHE := effective_cache st \<rparr>)
       \<and> remote_requests (snd (fetch_official_totals to_numeric remote uniform write_ok st player_id))
           = remote_requests st)
   \<and> (CAREER_CACHE st = [] \<and> cache_on_disk st = Unreadable \<longrightarrow> effective_cache st = [])
   \<and> ((map_of (effective_cache st) player_id = None
         \<or> (\<exists>cached. map_of (effective_cache st) player_id = Some cached
                      \<and> \<not> set TRACKED \<subseteq> fst ` set cached)) \<longrightarrow>
        remote_requests (snd (fetch_official_totals to_numeric remote uniform write_ok st player_id))
          = remote_requests st + 1
        \<and> fst (fetch_official_totals to_numeric remote uniform write_ok st player_id)
          = remote_totals to_numeric (remote player_id) uniform
        \<and> (\<forall>totals. remote_totals to_numeric (remote player_id) uniform = Some totals \<longrightarrow>
              map_of (CAREER_CACHE (snd (fetch_official_totals to_numeric remote uniform write_ok st player_id)))
                 player_id = Some totals
              \<and> (write_ok \<longrightarrow>
                   cache_on_disk (snd (fetch_official_totals to_numeric remote uniform write_ok st player_id))
                     = Stored (CAREER_CACHE
                         (snd (fetch_official_totals to_numeric remote uniform write_ok st player_id))))))"
proof (intro conjI allI impI)
  fix cached
  assume hit: "map_of (effective_cache st) player_id = Some cached
               \<and> set TRACKED \<subseteq> fst ` set cached"
  then show "fetch_official_totals to_numeric remote uniform write_ok st player_id
         = (Some cached, st\<lparr> CAREER_CACHE := effective_cache st \<rparr>)"
    by (simp add: fetch_official_totals_def Let_def full_record_iff)
  from hit show "remote_requests (snd (fetch_official_totals to_numeric remote uniform write_ok st player_id))
           = remote_requests st"
    by (simp add: fetch_official_totals_def Let_def full_record_iff)
next
  assume "CAREER_CACHE st = [] \<and> cache_on_disk st = Unreadable"
  then show "effective_cache st = []"
    by (simp add: effective_cache_def load_cache_def)
next
  assume miss: "map_of (effective_cache st) player_id = None
         \<or> (\<exists>cached. map_of (effective_cache st) player_id = Some cached
                      \<and> \<not> set TRACKED \<subseteq> fst ` set cached)"
  then have no_hit: "\<not> (case map_of (effective_cache st) player_id of
                          None \<Rightarrow> False | Some c \<Rightarrow> full_record c)"
    by (auto simp: full_record_iff split: option.splits)
  from no_hit show "remote_requests (snd (fetch_official_totals to_numeric remote uniform write_ok st player_id))
          = remote_requests st + 1"
    by (simp add: fetch_official_totals_def Let_def split: option.splits)
  from no_hit show "fst (fetch_official_totals to_numeric remote uniform write_ok st player_id)
          = remote_totals to_numeric (remote player_id) uniform"
    by (simp add: fetch_official_totals_def Let_def split: option.splits)
  fix totals
  assume ok: "remote_totals to_numeric (remote player_id) uniform = Some totals"
  from no_hit ok show "map_of (CAREER_CACHE (snd (fetch_official_totals to_numeric remote uniform write_ok st player_id)))
                 player_id = Some totals"
    by (simp add: fetch_official_totals_def Let_def update_conv')
  assume write_ok
  with no_hit ok show "cache_on_disk (snd (fetch_official_totals to_numeric remote uniform write_ok st player_id))
                     = Stored (CAREER_CACHE
                         (snd (fetch_official_totals to_numeric remote uniform write_ok st player_id)))"
    by (simp add: fetch_official_totals_def Let_def save_cache_def)
qed

theorem C9_cache_read_contract_witness:
  "fetch_official_totals example_to_numeric (always_returns example_frames) fixed_uniform True
       \<lparr> CAREER_CACHE = [], cache_on_disk = Stored [(''7'', example_totals)],
         remote_requests = 0 \<rparr> ''7''
     = (Some example_totals,
        \<lparr> CAREER_CACHE = [(''7'', example_totals)],
          cache_on_disk = Stored [(''7'', example_totals)], remote_requests = 0 \<rparr>)
   \<and> effective_cache \<lparr> CAREER_CACHE = [], cache_on_disk = Unreadable, remote_requests = 0 \<rparr> = []
   \<and> remote_totals example_to_numeric (always_returns example_frames ''7'') fixed_uniform
     = Some [(''PTS'', 150), (''REB'', 11), (''AST'', 2), (''STL'', 3), (''BLK'', 6)]
   \<and> fetch_official_totals example_to_numeric (always_returns example_frames) fixed_uniform True
       \<lparr> CAREER_CACHE = [], cache_on_disk = Unreadable, remote_requests = 0 \<rparr> ''7''
     = (Some [(''PTS'', 150), (''REB'', 11), (''AST'', 2), (''STL'', 3), (''BLK'', 6)],
        \<lparr> CAREER_CACHE = [(''7'', [(''PTS'', 150), (''REB'', 11), (''AST'', 2), (''STL'', 3),
                                    (''BLK'', 6)])],
          cache_on_disk = Stored [(''7'', [(''PTS'', 150), (''REB'', 11), (''AST'', 2),
                                           (''STL'', 3), (''BLK'', 6)])],
          remote_requests = 1 \<rparr>)"
proof -
  let ?hit = "\<lparr> CAREER_CACHE = [], cache_on_disk = Stored [(''7'', example_totals)],
         remote_requests = 0 \<rparr>"
  let ?bad = "\<lparr> CAREER_CACHE = [], cache_on_disk = Unreadable, remote_requests = 0 \<rparr>"
  let ?fresh = "[(''PTS'', 150), (''REB'', 11), (''AST'', 2), (''STL'', 3), (''BLK'', 6)] :: totals"
  have e1: "map_of (effective_cache ?hit) ''7'' = Some example_totals"
    by code_simp
  have e2: "set TRACKED \<subseteq> fst ` set example_totals"
    by code_simp
  have e3: "?hit\<lparr> CAREER_CACHE := effective_cache ?hit \<rparr>
      = \<lparr> CAREER_CACHE = [(''7'', example_totals)],
          cache_on_disk = Stored [(''7'', example_totals)], remote_requests = 0 \<rparr>"
    by code_simp
  have b1: "CAREER_CACHE ?bad = [] \<and> cache_on_disk ?bad = Unreadable"
    by simp
  have b3: "remote_totals example_to_numeric (always_returns example_frames ''7'') fixed_uniform = Some ?fresh"
    by code_simp
  have b4: "fetch_official_totals example_to_numeric (always_returns example_frames) fixed_uniform True ?bad ''7''
     = (Some ?fresh,
        \<lparr> CAREER_CACHE = [(''7'', ?fresh)], cache_on_disk = Stored [(''7'', ?fresh)],
          remote_requests = 1 \<rparr>)"
    by code_simp
  note c9_hit = C9_cache_read_contract
      [where st = ?hit and player_id = "''7''" and remote = "always_returns example_frames"
         and uniform = fixed_uniform and write_ok = True]
  note c9_bad = C9_cache_read_contract
      [where st = ?bad and player_id = "''7''" and remote = "always_returns example_frames"
         and uniform = fixed_uniform and write_ok = True]
  from c9_hit e1 e2 have hit:
    "fetch_official_totals example_to_numeric (always_returns example_frames) fixed_uniform True ?hit ''7''
       = (Some example_totals, ?hit\<lparr> CAREER_CACHE := effective_cache ?hit \<rparr>)"
    by blast
  from c9_bad b1 have empty: "effective_cache ?bad = []"
    by blast
  from hit empty b3 b4 show ?thesis
    by (simp only: e3 simp_thms)
qed

section \<open>Properties of the batch drivers\<close>












end
